theory Spec2Isabelle
  imports Main
begin

section \<open>Values shared by the packages\<close>

text \<open>
  Go errors are values. The two errors the repository builds itself are made with
  \<^verbatim>\<open>fmt.Errorf\<close>; \<^verbatim>\<open>io.EOF\<close> comes from the csv reader; every other error
  (the SQL driver's, the operating system's, the parsers' of the standard library) is
  opaque to the code, which only tests it against \<^verbatim>\<open>nil\<close>, and is kept as a tag.
\<close>

datatype error = Errorf string | io_EOF | External nat

text \<open>
  \<^verbatim>\<open>time.Time\<close> is an instant, counted from the zero value \<^verbatim>\<open>time.Time{}\<close> that a
  freshly allocated struct holds.
\<close>

type_synonym Time = int

definition zero_Time :: Time where
  "zero_Time = 0"

text \<open>
  The functions of the Go standard library that the normalizers call are parameters
  of the model. \<^verbatim>\<open>float64\<close> is the type parameter \<open>'a\<close>: the code only
  uses its zero, its addition, its subtraction and the comparison with zero, so every
  statement below holds for whatever arithmetic \<open>'a\<close> carries, rounding included.
  \<^verbatim>\<open>strconv.Atoi\<close> and \<^verbatim>\<open>json.Marshal\<close> return an error that every caller drops, so
  only the value they return is kept.
\<close>

record 'a Lib =
  ParseFloat :: "string \<Rightarrow> error + 'a"
  Atoi :: "string \<Rightarrow> int"
  TrimSpace :: "string \<Rightarrow> string"
  time_Parse :: "string \<Rightarrow> string \<Rightarrow> error + Time"
  Marshal :: "(string \<rightharpoonup> string) \<Rightarrow> string"

text \<open>\<^verbatim>\<open>strings.Contains(s, substr)\<close> on byte strings.\<close>

fun HasPrefix :: "string \<Rightarrow> string \<Rightarrow> bool" where
  "HasPrefix s [] = True"
| "HasPrefix [] (c # pre) = False"
| "HasPrefix (d # s) (c # pre) = (d = c \<and> HasPrefix s pre)"

fun Contains :: "string \<Rightarrow> string \<Rightarrow> bool" where
  "Contains [] substr = (substr = [])"
| "Contains (c # s) substr = (HasPrefix (c # s) substr \<or> Contains s substr)"

section \<open>ingest/payment.go\<close>

record 'a Payment =
  ID :: int
  OrderID :: string
  Date :: Time
  SettlementID :: string
  Type :: string
  SKU :: string
  Description :: string
  Quantity :: int
  Marketplace :: string
  AccountType :: string
  Fulfillment :: string
  TaxCollectionModel :: string
  ProductSales :: 'a
  ProductSalesTax :: 'a
  ShippingCredits :: 'a
  ShippingCreditsTax :: 'a
  GiftWrapCredits :: 'a
  GiftwrapCreditsTax :: 'a
  RegulatoryFee :: 'a
  TaxOnRegulatoryFee :: 'a
  PromotionalRebates :: 'a
  PromotionalRebatesTax :: 'a
  MarketplaceWithheldTax :: 'a
  SellingFees :: 'a
  FBAFees :: 'a
  OtherTransactionFees :: 'a
  Other :: 'a
  Total :: 'a
  RawData :: string

text \<open>
  The map \<^verbatim>\<open>data\<close> of both normalizers: the loop over \<^verbatim>\<open>headers\<close> stores the trimmed
  field under the trimmed header for every index below \<^verbatim>\<open>len(row)\<close>, a later header
  overwriting an equal earlier one.
\<close>

definition make_data :: "'a Lib \<Rightarrow> string list \<Rightarrow> string list \<Rightarrow> (string \<rightharpoonup> string)" where
  "make_data L headers row =
     foldl (\<lambda>data (header, field). data(TrimSpace L header \<mapsto> TrimSpace L field))
       Map.empty (zip headers row)"

text \<open>Reading \<^verbatim>\<open>data[key]\<close>: a missing key reads as the empty string.\<close>

definition index_data :: "(string \<rightharpoonup> string) \<Rightarrow> string \<Rightarrow> string" where
  "index_data data key = (case data key of None \<Rightarrow> [] | Some v \<Rightarrow> v)"

definition parseFloat :: "'a::zero Lib \<Rightarrow> string \<Rightarrow> 'a" where
  "parseFloat L s =
     (if s = [] then 0
      else case ParseFloat L s of Inl err \<Rightarrow> 0 | Inr val \<Rightarrow> val)"

text \<open>
  \<open>now\<close> is what \<^verbatim>\<open>time.Now()\<close> returns if this call reaches it.
\<close>

definition PaymentFromCSVRow ::
  "'a::zero Lib \<Rightarrow> Time \<Rightarrow> string list \<Rightarrow> string list \<Rightarrow> error + 'a Payment" where
  "PaymentFromCSVRow L now headers row =
     (if length row < length headers then Inl (Errorf ''row has fewer fields than headers'')
      else
        let data = make_data L headers row;
            val = index_data data ''quantity'';
            dateStr = index_data data ''date/time''
        in Inr \<lparr>
          Payment.ID = 0,
          Payment.OrderID = index_data data ''order id'',
          Payment.Date =
            (if dateStr \<noteq> [] then
               (case time_Parse L ''Jan 2, 2006 3:04:05 PM MST'' dateStr of
                  Inr t \<Rightarrow> t
                | Inl err \<Rightarrow>
                   (case time_Parse L ''2006-01-02'' dateStr of
                      Inr t \<Rightarrow> t
                    | Inl err \<Rightarrow> now))
             else zero_Time),
          Payment.SettlementID = index_data data ''settlement id'',
          Payment.Type = index_data data ''type'',
          Payment.SKU = index_data data ''sku'',
          Payment.Description = index_data data ''description'',
          Payment.Quantity = (if val \<noteq> [] then Atoi L val else 0),
          Payment.Marketplace = index_data data ''marketplace'',
          Payment.AccountType = index_data data ''account type'',
          Payment.Fulfillment = index_data data ''fulfillment'',
          Payment.TaxCollectionModel = index_data data ''tax collection model'',
          Payment.ProductSales = parseFloat L (index_data data ''product sales''),
          Payment.ProductSalesTax = parseFloat L (index_data data ''product sales tax''),
          Payment.ShippingCredits = parseFloat L (index_data data ''shipping credits''),
          Payment.ShippingCreditsTax = parseFloat L (index_data data ''shipping credits tax''),
          Payment.GiftWrapCredits = parseFloat L (index_data data ''gift wrap credits''),
          Payment.GiftwrapCreditsTax = parseFloat L (index_data data ''giftwrap credits tax''),
          Payment.RegulatoryFee = parseFloat L (index_data data ''Regulatory Fee''),
          Payment.TaxOnRegulatoryFee = parseFloat L (index_data data ''Tax On Regulatory Fee''),
          Payment.PromotionalRebates = parseFloat L (index_data data ''promotional rebates''),
          Payment.PromotionalRebatesTax = parseFloat L (index_data data ''promotional rebates tax''),
          Payment.MarketplaceWithheldTax = parseFloat L (index_data data ''marketplace withheld tax''),
          Payment.SellingFees = parseFloat L (index_data data ''selling fees''),
          Payment.FBAFees = parseFloat L (index_data data ''fba fees''),
          Payment.OtherTransactionFees = parseFloat L (index_data data ''other transaction fees''),
          Payment.Other = parseFloat L (index_data data ''other''),
          Payment.Total = parseFloat L (index_data data ''total''),
          Payment.RawData = Marshal L data
        \<rparr>)"

section \<open>ingest/settlements.go\<close>

record 'a Settlement =
  ID :: int
  SettlementID :: string
  SettlementStartDate :: string
  SettlementEndDate :: string
  DepositDate :: string
  TotalAmount :: 'a
  Currency :: string
  TransactionType :: string
  OrderID :: string
  MerchantOrderID :: string
  AdjustmentID :: string
  ShipmentID :: string
  MarketplaceName :: string
  AmountType :: string
  AmountDescription :: string
  Amount :: 'a
  FulfillmentID :: string
  PostedDate :: string
  PostedDateTime :: Time
  OrderItemCode :: string
  MerchantOrderItemID :: string
  MerchantAdjustmentItemID :: string
  SKU :: string
  QuantityPurchased :: int
  RawData :: string

definition parseSettlementFloat :: "'a::zero Lib \<Rightarrow> string \<Rightarrow> 'a" where
  "parseSettlementFloat L s =
     (if s = [] then 0
      else case ParseFloat L s of Inl err \<Rightarrow> 0 | Inr val \<Rightarrow> val)"

definition SettlementFromTSVRow ::
  "'a::zero Lib \<Rightarrow> Time \<Rightarrow> string list \<Rightarrow> string list \<Rightarrow> error + 'a Settlement" where
  "SettlementFromTSVRow L now headers row =
     (if length row < length headers then Inl (Errorf ''row has fewer fields than headers'')
      else
        let data = make_data L headers row;
            val = index_data data ''quantity-purchased'';
            dateStr = index_data data ''posted-date-time''
        in Inr \<lparr>
          Settlement.ID = 0,
          Settlement.SettlementID = index_data data ''settlement-id'',
          Settlement.SettlementStartDate = index_data data ''settlement-start-date'',
          Settlement.SettlementEndDate = index_data data ''settlement-end-date'',
          Settlement.DepositDate = index_data data ''deposit-date'',
          Settlement.TotalAmount = parseSettlementFloat L (index_data data ''total-amount''),
          Settlement.Currency = index_data data ''currency'',
          Settlement.TransactionType = index_data data ''transaction-type'',
          Settlement.OrderID = index_data data ''order-id'',
          Settlement.MerchantOrderID = index_data data ''merchant-order-id'',
          Settlement.AdjustmentID = index_data data ''adjustment-id'',
          Settlement.ShipmentID = index_data data ''shipment-id'',
          Settlement.MarketplaceName = index_data data ''marketplace-name'',
          Settlement.AmountType = index_data data ''amount-type'',
          Settlement.AmountDescription = index_data data ''amount-description'',
          Settlement.Amount = parseSettlementFloat L (index_data data ''amount''),
          Settlement.FulfillmentID = index_data data ''fulfillment-id'',
          Settlement.PostedDate = index_data data ''posted-date'',
          Settlement.PostedDateTime =
            (if dateStr \<noteq> [] then
               (case time_Parse L ''2006-01-02 15:04:05 MST'' dateStr of
                  Inr t \<Rightarrow> t
                | Inl err \<Rightarrow>
                   (case time_Parse L ''2006-01-02 15:04:05'' dateStr of
                      Inr t \<Rightarrow> t
                    | Inl err \<Rightarrow> now))
             else zero_Time),
          Settlement.OrderItemCode = index_data data ''order-item-code'',
          Settlement.MerchantOrderItemID = index_data data ''merchant-order-item-id'',
          Settlement.MerchantAdjustmentItemID = index_data data ''merchant-adjustment-item-id'',
          Settlement.SKU = index_data data ''sku'',
          Settlement.QuantityPurchased = (if val \<noteq> [] then Atoi L val else 0),
          Settlement.RawData = Marshal L data
        \<rparr>)"

text \<open>
  \<^verbatim>\<open>orderTotals[k] += v\<close> reads the zero value for a key the map does not hold yet.
  The loop runs over the slice from left to right. The slice holds pointers; its one
  caller appends only settlements that \<^verbatim>\<open>SettlementFromTSVRow\<close> returned without error,
  so none of them is \<^verbatim>\<open>nil\<close>, and the model takes the settlements themselves.
\<close>

definition add_settlement ::
  "(string \<rightharpoonup> 'a::{zero,plus}) \<Rightarrow> 'a Settlement \<Rightarrow> (string \<rightharpoonup> 'a)" where
  "add_settlement orderTotals settlement =
     (if Settlement.OrderID settlement \<noteq> [] then
        orderTotals(Settlement.OrderID settlement \<mapsto>
          (case orderTotals (Settlement.OrderID settlement) of None \<Rightarrow> 0 | Some v \<Rightarrow> v)
            + Amount settlement)
      else orderTotals)"

definition AggregateSettlementsByOrderID ::
  "'a::{zero,plus} Settlement list \<Rightarrow> (string \<rightharpoonup> 'a)" where
  "AggregateSettlementsByOrderID settlements = foldl add_settlement Map.empty settlements"

section \<open>models/record.go and the store\<close>

record 'a Record =
  ID :: int
  Source :: string
  OrderID :: string
  Date :: Time
  TotalAmount :: 'a
  RawData :: string

record 'a ReconciledRecord =
  ID :: int
  PaymentsRecordID :: int
  SettlementsRecordID :: int
  AmountDifference :: 'a

text \<open>\<^verbatim>\<open>db.BatchRecord\<close>: the five values of one insert into \<^verbatim>\<open>records\<close>.\<close>

record 'a BatchRecord =
  Source :: string
  OrderID :: string
  Date :: Time
  TotalAmount :: 'a
  RawData :: string

text \<open>
  The database behind the handle (\<^verbatim>\<open>config.DB\<close>, \<^verbatim>\<open>*sqlx.DB\<close>) is the two tables
  of \<^verbatim>\<open>schema.sql\<close> with their identity sequences. A numeric column holds the value it
  is given.
\<close>

record 'a DB =
  records :: "'a Record list"
  records_id_seq :: int
  reconciled_records :: "'a ReconciledRecord list"
  reconciled_records_id_seq :: int

text \<open>
  The server is an external collaborator: which of its statements fail is a parameter.
  A rejected statement changes nothing and returns its error.
\<close>

record 'a Faults =
  begin_err :: "error option"
  commit_err :: "error option"
  prepare_err :: "error option"
  query_err :: "error option"
  delete_reconciled_err :: "error option"
  insert_record_err :: "'a BatchRecord \<Rightarrow> error option"
  insert_reconciled_err :: "int \<Rightarrow> int \<Rightarrow> 'a \<Rightarrow> error option"

definition no_faults :: "'a Faults" where
  "no_faults = \<lparr>begin_err = None, commit_err = None, prepare_err = None, query_err = None,
     delete_reconciled_err = None, insert_record_err = (\<lambda>r. None),
     insert_reconciled_err = (\<lambda>p s d. None)\<rparr>"

text \<open>
  \<^verbatim>\<open>INSERT INTO records (source, order_id, date, total_amount, raw_data) VALUES ($1, $2, $3, $4, $5)\<close>
\<close>

definition insert_record :: "'a Faults \<Rightarrow> 'a BatchRecord \<Rightarrow> 'a DB \<Rightarrow> error + 'a DB" where
  "insert_record F r db =
     (case insert_record_err F r of
        Some err \<Rightarrow> Inl err
      | None \<Rightarrow> Inr (db\<lparr>
          records := records db @
            [\<lparr>Record.ID = records_id_seq db, Record.Source = BatchRecord.Source r,
              Record.OrderID = BatchRecord.OrderID r, Record.Date = BatchRecord.Date r,
              Record.TotalAmount = BatchRecord.TotalAmount r,
              Record.RawData = BatchRecord.RawData r\<rparr>],
          records_id_seq := records_id_seq db + 1\<rparr>))"

text \<open>
  \<^verbatim>\<open>INSERT INTO reconciled_records (payments_record_id, settlements_record_id, amount_difference) VALUES ($1, $2, $3)\<close>
\<close>

definition insert_reconciled :: "'a Faults \<Rightarrow> int \<Rightarrow> int \<Rightarrow> 'a \<Rightarrow> 'a DB \<Rightarrow> error + 'a DB" where
  "insert_reconciled F paymentId settlementId diff db =
     (case insert_reconciled_err F paymentId settlementId diff of
        Some err \<Rightarrow> Inl err
      | None \<Rightarrow> Inr (db\<lparr>
          reconciled_records := reconciled_records db @
            [\<lparr>ReconciledRecord.ID = reconciled_records_id_seq db,
              PaymentsRecordID = paymentId, SettlementsRecordID = settlementId,
              AmountDifference = diff\<rparr>],
          reconciled_records_id_seq := reconciled_records_id_seq db + 1\<rparr>))"

text \<open>\<^verbatim>\<open>DELETE FROM reconciled_records\<close>\<close>

definition delete_reconciled :: "'a Faults \<Rightarrow> 'a DB \<Rightarrow> error + 'a DB" where
  "delete_reconciled F db =
     (case delete_reconciled_err F of
        Some err \<Rightarrow> Inl err
      | None \<Rightarrow> Inr (db\<lparr>reconciled_records := []\<rparr>))"

text \<open>
  The join of \<^verbatim>\<open>RunReconciliation\<close>:
  \<^verbatim>\<open>SELECT p.id, p.order_id, p.total_amount, s.id, s.total_amount FROM records p
  JOIN records s ON p.order_id = s.order_id
  WHERE p.source = 'payments' AND s.source = 'settlements'\<close>
\<close>

definition join_rows :: "'a DB \<Rightarrow> (int \<times> string \<times> 'a \<times> int \<times> 'a) list" where
  "join_rows db =
     concat (map (\<lambda>p. concat (map (\<lambda>s.
       if Record.OrderID p = Record.OrderID s
          \<and> Record.Source p = ''payments'' \<and> Record.Source s = ''settlements''
       then [(Record.ID p, Record.OrderID p, Record.TotalAmount p,
              Record.ID s, Record.TotalAmount s)]
       else []) (records db))) (records db))"

definition join_query ::
  "'a Faults \<Rightarrow> 'a DB \<Rightarrow> error + (int \<times> string \<times> 'a \<times> int \<times> 'a) list" where
  "join_query F db =
     (case query_err F of
        Some err \<Rightarrow> Inl err
      | None \<Rightarrow> Inr (join_rows db))"

text \<open>
  A call \<^verbatim>\<open>config.DB.Exec(...)\<close> whose two results are dropped: the store is what the
  statement made of it, or what it was when the statement failed.
\<close>

definition Exec_dropped :: "error + 'a DB \<Rightarrow> 'a DB \<Rightarrow> 'a DB" where
  "Exec_dropped result db = (case result of Inl err \<Rightarrow> db | Inr db' \<Rightarrow> db')"

text \<open>
  Transactions, seen from the one connection that runs them: \<^verbatim>\<open>Beginx\<close> hands out a
  working copy of the store, the statements of the transaction act on the copy,
  \<^verbatim>\<open>Commit\<close> makes the copy the store and \<^verbatim>\<open>Rollback\<close> leaves the store as it was.
\<close>

definition Beginx :: "'a Faults \<Rightarrow> 'a DB \<Rightarrow> error + 'a DB" where
  "Beginx F db = (case begin_err F of Some err \<Rightarrow> Inl err | None \<Rightarrow> Inr db)"

definition Commit :: "'a Faults \<Rightarrow> 'a DB \<Rightarrow> 'a DB \<Rightarrow> 'a DB \<times> error option" where
  "Commit F db tx = (case commit_err F of Some err \<Rightarrow> (db, Some err) | None \<Rightarrow> (tx, None))"

definition Rollback :: "'a DB \<Rightarrow> 'a DB \<Rightarrow> 'a DB" where
  "Rollback db tx = db"

type_synonym Stmt = string

definition Preparex :: "'a Faults \<Rightarrow> string \<Rightarrow> error + Stmt" where
  "Preparex F query = (case prepare_err F of Some err \<Rightarrow> Inl err | None \<Rightarrow> Inr query)"

section \<open>db/batch.go\<close>

definition DefaultBatchSize :: int where
  "DefaultBatchSize = 1000"

definition DefaultWorkers :: int where
  "DefaultWorkers = 4"

text \<open>
  The inserters keep the handle \<^verbatim>\<open>db\<close> as a pointer to the one store; here the store is
  passed to and returned by the methods that use it.
\<close>

record BatchInserter =
  batchSize :: int
  workers :: int

definition NewBatchInserter :: "int \<Rightarrow> int \<Rightarrow> BatchInserter" where
  "NewBatchInserter batchSize' workers' =
     \<lparr>BatchInserter.batchSize = (if batchSize' \<le> 0 then DefaultBatchSize else batchSize'),
      BatchInserter.workers = (if workers' \<le> 0 then DefaultWorkers else workers')\<rparr>"

record PreparedBatchInserter =
  stmt :: Stmt
  batchSize :: int
  workers :: int

definition NewPreparedBatchInserter ::
  "'a Faults \<Rightarrow> int \<Rightarrow> int \<Rightarrow> error + PreparedBatchInserter" where
  "NewPreparedBatchInserter F batchSize' workers' =
     (case Preparex F
        ''INSERT INTO records (source, order_id, date, total_amount, raw_data) VALUES ($1, $2, $3, $4, $5)'' of
        Inl err \<Rightarrow> Inl err
      | Inr stmt' \<Rightarrow> Inr
         \<lparr>PreparedBatchInserter.stmt = stmt',
          PreparedBatchInserter.batchSize = (if batchSize' \<le> 0 then DefaultBatchSize else batchSize'),
          PreparedBatchInserter.workers = (if workers' \<le> 0 then DefaultWorkers else workers')\<rparr>)"

record StreamingBatchInserter =
  batchSize :: int
  workers :: int
  stmt :: Stmt

definition NewStreamingBatchInserter ::
  "'a Faults \<Rightarrow> int \<Rightarrow> int \<Rightarrow> error + StreamingBatchInserter" where
  "NewStreamingBatchInserter F batchSize' workers' =
     (case Preparex F
        ''INSERT INTO records (source, order_id, date, total_amount, raw_data) VALUES ($1, $2, $3, $4, $5)'' of
        Inl err \<Rightarrow> Inl err
      | Inr stmt' \<Rightarrow> Inr
         \<lparr>StreamingBatchInserter.batchSize = (if batchSize' \<le> 0 then DefaultBatchSize else batchSize'),
          StreamingBatchInserter.workers = (if workers' \<le> 0 then DefaultWorkers else workers'),
          StreamingBatchInserter.stmt = stmt'\<rparr>)"

text \<open>
  The slice expression \<^verbatim>\<open>records[i:end]\<close> panics unless \<open>0 \<le> i \<le> end \<le> len(records)\<close>
  (the slices here have no spare capacity that matters: \<open>end\<close> never exceeds the length).
\<close>

datatype 'a outcome = Panic | Returns 'a

definition slice :: "'a list \<Rightarrow> int \<Rightarrow> int \<Rightarrow> 'a list outcome" where
  "slice xs i j =
     (if 0 \<le> i \<and> i \<le> j \<and> j \<le> int (length xs)
      then Returns (take (nat (j - i)) (drop (nat i) xs)) else Panic)"

text \<open>
  The loop of both \<^verbatim>\<open>createBatches\<close> methods,
  \<^verbatim>\<open>for i := 0; i < len(records); i += batchSize\<close>. With \<open>batchSize = 0\<close> it never
  ends, so the function is partial: \<open>None\<close> is the run that does not return. The
  counter stays below twice the length of the slice, so it does not overflow.
\<close>

partial_function (option) createBatches_loop ::
  "int \<Rightarrow> 'a list \<Rightarrow> int \<Rightarrow> 'a list list \<Rightarrow> 'a list list outcome option" where
  "createBatches_loop batchSize' records' i batches =
     (if i < int (length records') then
        (let end0 = i + batchSize';
             end1 = (if end0 > int (length records') then int (length records') else end0)
         in case slice records' i end1 of
              Panic \<Rightarrow> Some Panic
            | Returns batch \<Rightarrow> createBatches_loop batchSize' records' (i + batchSize') (batches @ [batch]))
      else Some (Returns batches))"

definition BatchInserter_createBatches ::
  "BatchInserter \<Rightarrow> 'a list \<Rightarrow> 'a list list outcome option" where
  "BatchInserter_createBatches bi records' =
     createBatches_loop (BatchInserter.batchSize bi) records' 0 []"

definition PreparedBatchInserter_createBatches ::
  "PreparedBatchInserter \<Rightarrow> 'a list \<Rightarrow> 'a list list outcome option" where
  "PreparedBatchInserter_createBatches pbi records' =
     createBatches_loop (PreparedBatchInserter.batchSize pbi) records' 0 []"

text \<open>
  The statements of one transaction, in the order of the batch, stopping at the first
  error (\<^verbatim>\<open>txStmt.Exec\<close> in the loop of the prepared inserter).
\<close>

fun exec_batch :: "'a Faults \<Rightarrow> 'a BatchRecord list \<Rightarrow> 'a DB \<Rightarrow> error + 'a DB" where
  "exec_batch F [] tx = Inr tx"
| "exec_batch F (r # batch) tx =
     (case insert_record F r tx of
        Inl err \<Rightarrow> Inl err
      | Inr tx' \<Rightarrow> exec_batch F batch tx')"

text \<open>
  \<^verbatim>\<open>PreparedBatchInserter.insertBatch\<close>. The deferred \<^verbatim>\<open>tx.Rollback()\<close> runs on every
  return after \<^verbatim>\<open>Beginx\<close> succeeded; after a \<^verbatim>\<open>Commit\<close> it does nothing.
\<close>

definition PreparedBatchInserter_insertBatch ::
  "'a Faults \<Rightarrow> PreparedBatchInserter \<Rightarrow> 'a BatchRecord list \<Rightarrow> 'a DB \<Rightarrow> 'a DB \<times> error option" where
  "PreparedBatchInserter_insertBatch F pbi batch db =
     (if length batch = 0 then (db, None)
      else case Beginx F db of
        Inl err \<Rightarrow> (db, Some err)
      | Inr tx \<Rightarrow>
         (case exec_batch F batch tx of
            Inl err \<Rightarrow> (Rollback db tx, Some err)
          | Inr tx' \<Rightarrow> Commit F db tx'))"

text \<open>
  \<^verbatim>\<open>BatchInserter.insertBatch\<close> sends the whole batch as one multi-row
  \<^verbatim>\<open>INSERT ... VALUES (...), (...), ...\<close>, the rows in the order of the batch. One
  statement is its own transaction: the server applies all of its rows or none.
\<close>

definition Exec_multi_insert :: "'a Faults \<Rightarrow> 'a BatchRecord list \<Rightarrow> 'a DB \<Rightarrow> 'a DB \<times> error option" where
  "Exec_multi_insert F batch db =
     (case exec_batch F batch db of
        Inl err \<Rightarrow> (db, Some err)
      | Inr db' \<Rightarrow> (db', None))"

definition BatchInserter_insertBatch ::
  "'a Faults \<Rightarrow> BatchInserter \<Rightarrow> 'a BatchRecord list \<Rightarrow> 'a DB \<Rightarrow> 'a DB \<times> error option" where
  "BatchInserter_insertBatch F bi batch db =
     (if length batch = 0 then (db, None)
      else Exec_multi_insert F batch db)"

section \<open>controllers/reconcile\_controller.go\<close>

text \<open>
  The loop over the rows of the join. \<^verbatim>\<open>rows.Scan\<close> fills the five variables; the
  insert is a \<^verbatim>\<open>config.DB.Exec\<close> whose results are dropped.
\<close>

fun reconcile_rows ::
  "'a::minus Faults \<Rightarrow> (int \<times> string \<times> 'a \<times> int \<times> 'a) list \<Rightarrow> 'a DB \<Rightarrow> 'a DB" where
  "reconcile_rows F [] db = db"
| "reconcile_rows F ((paymentId, orderId, paymentTotal, settlementId, settlementTotal) # rows) db =
     (let diff = paymentTotal - settlementTotal
      in reconcile_rows F rows
           (Exec_dropped (insert_reconciled F paymentId settlementId diff db) db))"

definition RunReconciliation :: "'a::minus Faults \<Rightarrow> 'a DB \<Rightarrow> 'a DB \<times> error option" where
  "RunReconciliation F db =
     (let db1 = Exec_dropped (delete_reconciled F db) db
      in case join_query F db1 of
           Inl err \<Rightarrow> (db1, Some err)
         | Inr rows \<Rightarrow> (reconcile_rows F rows db1, None))"

section \<open>utils/parser.go\<close>

text \<open>
  The csv reader, as the code sees it: the records that \<^verbatim>\<open>reader.Read()\<close> returns
  before its first error, and that error (\<^verbatim>\<open>io.EOF\<close> at the end of a file that was
  read whole). Both loops stop reading at the first error.

  The header scan \<^verbatim>\<open>for i := 0; i < 20; i++\<close>, by the number of rounds left. It
  returns the header row and what is left of the reader; when the rounds run out
  \<^verbatim>\<open>headers\<close> is still \<^verbatim>\<open>nil\<close>.
\<close>

fun scan_headers ::
  "nat \<Rightarrow> string list list \<Rightarrow> error \<Rightarrow> error + (string list \<times> string list list)" where
  "scan_headers 0 lines read_err = Inr ([], lines)"
| "scan_headers (Suc n) [] read_err = Inl read_err"
| "scan_headers (Suc n) (line # lines) read_err =
     (if length line > 0 \<and> Contains (hd line) ''date/time'' then Inr (line, lines)
      else scan_headers n lines read_err)"

text \<open>
  The data loop. \<open>clock k\<close> is the reading of \<^verbatim>\<open>time.Now()\<close> during the \<open>k\<close>-th
  record of the loop; \<open>k\<close> counts the records read so far. The state is the store and
  the counter \<^verbatim>\<open>recordsProcessed\<close>.
\<close>

fun store_payments ::
  "'a::zero Lib \<Rightarrow> 'a Faults \<Rightarrow> (nat \<Rightarrow> Time) \<Rightarrow> string list \<Rightarrow> string list list \<Rightarrow> nat
     \<Rightarrow> 'a DB \<times> nat \<Rightarrow> 'a DB \<times> nat" where
  "store_payments L F clock headers [] k (db, recordsProcessed) = (db, recordsProcessed)"
| "store_payments L F clock headers (line # lines) k (db, recordsProcessed) =
     (if length line = 0 then store_payments L F clock headers lines (Suc k) (db, recordsProcessed)
      else case PaymentFromCSVRow L (clock k) headers line of
        Inl err \<Rightarrow> store_payments L F clock headers lines (Suc k) (db, recordsProcessed)
      | Inr payment \<Rightarrow>
         (if Payment.OrderID payment = [] \<or> Total payment = 0
          then store_payments L F clock headers lines (Suc k) (db, recordsProcessed)
          else store_payments L F clock headers lines (Suc k)
            (Exec_dropped (insert_record F
               \<lparr>BatchRecord.Source = ''payments'', BatchRecord.OrderID = Payment.OrderID payment,
                BatchRecord.Date = Payment.Date payment, BatchRecord.TotalAmount = Total payment,
                BatchRecord.RawData = Payment.RawData payment\<rparr> db) db,
             recordsProcessed + 1)))"

text \<open>
  \<^verbatim>\<open>ParseAndStorePayments\<close>. \<open>file\<close> is the result of \<^verbatim>\<open>os.Open\<close>: its error, or
  the reader over the file. The result is the store, the number the function prints
  when it gets that far, and the error it returns.
\<close>

definition ParseAndStorePayments ::
  "'a::zero Lib \<Rightarrow> 'a Faults \<Rightarrow> (nat \<Rightarrow> Time) \<Rightarrow> error + (string list list \<times> error) \<Rightarrow> 'a DB
     \<Rightarrow> 'a DB \<times> nat option \<times> error option" where
  "ParseAndStorePayments L F clock file db =
     (case file of
        Inl err \<Rightarrow> (db, None, Some err)
      | Inr (lines, read_err) \<Rightarrow>
         (case scan_headers 20 lines read_err of
            Inl err \<Rightarrow> (db, None, Some err)
          | Inr (headers, rest) \<Rightarrow>
             (if length headers = 0 then (db, None, Some (Errorf ''headers not found''))
              else let (db', recordsProcessed) = store_payments L F clock headers rest 0 (db, 0)
                   in (db', Some recordsProcessed, None))))"

section \<open>Notions used in the statements\<close>

text \<open>The five values of a stored row, without the identity the store gave it.\<close>

definition Record_values :: "'a Record \<Rightarrow> 'a BatchRecord" where
  "Record_values r =
     \<lparr>BatchRecord.Source = Record.Source r, BatchRecord.OrderID = Record.OrderID r,
      BatchRecord.Date = Record.Date r, BatchRecord.TotalAmount = Record.TotalAmount r,
      BatchRecord.RawData = Record.RawData r\<rparr>"

text \<open>
  The batches as the specification describes them: cut the list into consecutive pieces
  of \<open>n\<close> elements, the last piece holding what is left.
\<close>

function chunks :: "nat \<Rightarrow> 'a list \<Rightarrow> 'a list list" where
  "chunks n xs = (if n = 0 \<or> xs = [] then [] else take n xs # chunks n (drop n xs))"
  by pat_completeness auto
termination
  by (relation "measure (\<lambda>(n, xs). length xs)") auto

text \<open>
  What the specification asks of a partition into batches of at most \<open>n\<close>: the batches
  in order give the list back, none is empty or longer than \<open>n\<close>, every batch but the
  last is full, and the \<open>k\<close>-th batch is the \<open>k\<close>-th window of width \<open>n\<close>.
\<close>

definition contiguous_batches :: "nat \<Rightarrow> 'a list \<Rightarrow> 'a list list \<Rightarrow> bool" where
  "contiguous_batches n rs batches \<longleftrightarrow>
     concat batches = rs
     \<and> (\<forall>b \<in> set batches. b \<noteq> [] \<and> length b \<le> n)
     \<and> (\<forall>k. Suc k < length batches \<longrightarrow> length (batches ! k) = n)
     \<and> (\<forall>k < length batches. batches ! k = take n (drop (k * n) rs))"

text \<open>
  The timestamp rule in the words of the specification: the primary format, then the
  fallback format, then the current time.
\<close>

definition parse_or_now :: "'a Lib \<Rightarrow> Time \<Rightarrow> string \<Rightarrow> string \<Rightarrow> string \<Rightarrow> Time" where
  "parse_or_now L now primary fallback dateStr =
     (case time_Parse L primary dateStr of
        Inr t \<Rightarrow> t
      | Inl err \<Rightarrow>
         (case time_Parse L fallback dateStr of
            Inr t \<Rightarrow> t
          | Inl err \<Rightarrow> now))"

text \<open>The test of the header scan on one line.\<close>

definition is_header :: "string list \<Rightarrow> bool" where
  "is_header line \<longleftrightarrow> length line > 0 \<and> Contains (hd line) ''date/time''"

text \<open>
  The filter of the payment ingestor in the words of the specification: a row is
  accepted when normalization succeeds, the order key is not empty and the total is not
  zero. The list holds the normalized payments of the accepted rows, in order; \<open>k\<close> is
  the position of the first row, for the clock.
\<close>

definition accepted :: "error + 'a::zero Payment \<Rightarrow> bool" where
  "accepted result =
     (case result of
        Inl err \<Rightarrow> False
      | Inr payment \<Rightarrow> Payment.OrderID payment \<noteq> [] \<and> Total payment \<noteq> 0)"

fun accepted_payments ::
  "'a::zero Lib \<Rightarrow> (nat \<Rightarrow> Time) \<Rightarrow> string list \<Rightarrow> string list list \<Rightarrow> nat \<Rightarrow> 'a Payment list" where
  "accepted_payments L clock headers [] k = []"
| "accepted_payments L clock headers (line # lines) k =
     (case PaymentFromCSVRow L (clock k) headers line of
        Inl err \<Rightarrow> accepted_payments L clock headers lines (Suc k)
      | Inr payment \<Rightarrow>
         (if accepted (Inr payment) then payment # accepted_payments L clock headers lines (Suc k)
          else accepted_payments L clock headers lines (Suc k)))"

definition payment_values :: "'a Payment \<Rightarrow> 'a BatchRecord" where
  "payment_values payment =
     \<lparr>BatchRecord.Source = ''payments'', BatchRecord.OrderID = Payment.OrderID payment,
      BatchRecord.Date = Payment.Date payment, BatchRecord.TotalAmount = Total payment,
      BatchRecord.RawData = Payment.RawData payment\<rparr>"

text \<open>
  A reconciliation row belongs to the order key of the rows it references, as the report
  reads it (\<^verbatim>\<open>JOIN records p ON r.payments_record_id = p.id\<close>, and the same for the
  settlements side).
\<close>

definition result_exists_for :: "'a DB \<Rightarrow> string \<Rightarrow> bool" where
  "result_exists_for db K \<longleftrightarrow>
     list_ex (\<lambda>r.
       list_ex (\<lambda>p. Record.ID p = PaymentsRecordID r \<and> Record.OrderID p = K) (records db)
       \<and> list_ex (\<lambda>s. Record.ID s = SettlementsRecordID r \<and> Record.OrderID s = K) (records db))
     (reconciled_records db)"

definition has_row :: "'a DB \<Rightarrow> string \<Rightarrow> string \<Rightarrow> bool" where
  "has_row db source K \<longleftrightarrow>
     list_ex (\<lambda>r. Record.Source r = source \<and> Record.OrderID r = K) (records db)"

text \<open>
  The three values of a reconciliation row, without its identity; the row that the loop
  of \<^verbatim>\<open>RunReconciliation\<close> sends for a row of the join; and whether the server takes it.
\<close>

definition ReconciledRecord_values :: "'a ReconciledRecord \<Rightarrow> int \<times> int \<times> 'a" where
  "ReconciledRecord_values r = (PaymentsRecordID r, SettlementsRecordID r, AmountDifference r)"

definition difference_row :: "int \<times> string \<times> 'a::minus \<times> int \<times> 'a \<Rightarrow> int \<times> int \<times> 'a" where
  "difference_row row =
     (case row of (paymentId, orderId, paymentTotal, settlementId, settlementTotal) \<Rightarrow>
        (paymentId, settlementId, paymentTotal - settlementTotal))"

definition insert_accepted :: "'a::minus Faults \<Rightarrow> int \<times> string \<times> 'a \<times> int \<times> 'a \<Rightarrow> bool" where
  "insert_accepted F row =
     (case difference_row row of (paymentId, settlementId, diff) \<Rightarrow>
        insert_reconciled_err F paymentId settlementId diff = None)"

section \<open>Concrete inputs for the examples\<close>

text \<open>
  An instance of the library functions on the few strings the examples use, with
  amounts counted in cents.
\<close>

definition example_ParseFloat :: "string \<Rightarrow> error + int" where
  "example_ParseFloat s =
     (if s = ''100.00'' then Inr 10000
      else if s = ''0.00'' then Inr 0
      else if s = ''12.50'' then Inr 1250
      else Inl (External 1))"

definition example_TrimSpace :: "string \<Rightarrow> string" where
  "example_TrimSpace s =
     rev (dropWhile (\<lambda>c. c = CHR '' '') (rev (dropWhile (\<lambda>c. c = CHR '' '') s)))"

definition example_time_Parse :: "string \<Rightarrow> string \<Rightarrow> error + Time" where
  "example_time_Parse layout s =
     (if layout = ''2006-01-02'' \<and> s = ''2024-03-01'' then Inr 63844848000
      else Inl (External 2))"

definition example_Lib :: "int Lib" where
  "example_Lib =
     \<lparr>ParseFloat = example_ParseFloat, Atoi = (\<lambda>s. 0), TrimSpace = example_TrimSpace,
      time_Parse = example_time_Parse, Marshal = (\<lambda>data. ''{}'')\<rparr>"

definition example_headers :: "string list" where
  "example_headers = [''date/time'', ''order id'', ''total'']"

definition empty_DB :: "int DB" where
  "empty_DB = \<lparr>records = [], records_id_seq = 1, reconciled_records = [],
     reconciled_records_id_seq = 1\<rparr>"

definition example_record :: "int \<Rightarrow> string \<Rightarrow> string \<Rightarrow> int \<Rightarrow> int Record" where
  "example_record i source K amount =
     \<lparr>Record.ID = i, Record.Source = source, Record.OrderID = K, Record.Date = 0,
      Record.TotalAmount = amount, Record.RawData = ''{}''\<rparr>"

definition example_DB :: "int DB" where
  "example_DB =
     \<lparr>records =
        [example_record 1 ''payments'' ''ORD001'' 10000,
         example_record 2 ''payments'' ''ORD002'' 15000,
         example_record 3 ''payments'' ''ORD009'' 700,
         example_record 4 ''settlements'' ''ORD001'' 10000,
         example_record 5 ''settlements'' ''ORD002'' 14500],
      records_id_seq = 6, reconciled_records = [], reconciled_records_id_seq = 1\<rparr>"

definition example_batch :: "int BatchRecord list" where
  "example_batch =
     [\<lparr>BatchRecord.Source = ''payments'', BatchRecord.OrderID = ''ORD001'',
       BatchRecord.Date = 0, BatchRecord.TotalAmount = 10000, BatchRecord.RawData = ''{}''\<rparr>,
      \<lparr>BatchRecord.Source = ''payments'', BatchRecord.OrderID = ''ORD002'',
       BatchRecord.Date = 0, BatchRecord.TotalAmount = 15000, BatchRecord.RawData = ''{}''\<rparr>]"

text \<open>A server that rejects the record of order ORD002 and the reconciliation row of
  payment 1, and accepts everything else.\<close>

definition example_Faults :: "int Faults" where
  "example_Faults =
     \<lparr>begin_err = None, commit_err = None, prepare_err = None, query_err = None,
      delete_reconciled_err = None,
      insert_record_err =
        (\<lambda>r. if BatchRecord.OrderID r = ''ORD002'' then Some (External 3) else None),
      insert_reconciled_err =
        (\<lambda>paymentId settlementId diff. if paymentId = 1 then Some (External 4) else None)\<rparr>"

section \<open>Settlement aggregation\<close>

lemma add_settlement_apply:
  "add_settlement m s k =
     (if Settlement.OrderID s = k \<and> k \<noteq> []
      then Some ((case m k of None \<Rightarrow> 0 | Some v \<Rightarrow> v) + Amount s)
      else m k)"
  by (auto simp add: add_settlement_def)

lemma foldl_add_settlement:
  "foldl add_settlement m ss k =
     (if k \<noteq> [] \<and> k \<in> Settlement.OrderID ` set ss
      then Some (foldl (+) (case m k of None \<Rightarrow> 0 | Some v \<Rightarrow> v)
                   (map Amount (filter (\<lambda>s. Settlement.OrderID s = k) ss)))
      else m k)"
proof (induction ss arbitrary: m)
  case Nil
  show ?case by simp
next
  case (Cons s ss)
  have "foldl add_settlement m (s # ss) k = foldl add_settlement (add_settlement m s) ss k"
    by simp
  also have "\<dots> =
     (if k \<noteq> [] \<and> k \<in> Settlement.OrderID ` set ss
      then Some (foldl (+) (case add_settlement m s k of None \<Rightarrow> 0 | Some v \<Rightarrow> v)
                   (map Amount (filter (\<lambda>s. Settlement.OrderID s = k) ss)))
      else add_settlement m s k)"
    by (rule Cons.IH)
  also have "\<dots> =
     (if k \<noteq> [] \<and> k \<in> Settlement.OrderID ` set (s # ss)
      then Some (foldl (+) (case m k of None \<Rightarrow> 0 | Some v \<Rightarrow> v)
                   (map Amount (filter (\<lambda>s. Settlement.OrderID s = k) (s # ss))))
      else m k)"
  proof -
    have "filter (\<lambda>s. Settlement.OrderID s = k) ss = []"
      if "k \<notin> Settlement.OrderID ` set ss"
      using that by (auto simp add: filter_empty_conv)
    then show ?thesis
      by (auto simp add: add_settlement_apply)
  qed
  finally show ?case .
qed

text \<open>
  Claim C2. For every list of settlement line items and every order key \<open>K\<close>, the
  aggregation holds an entry for \<open>K\<close> exactly when \<open>K\<close> is not empty and some line
  item bears it, and the entry is the sum of the \<^verbatim>\<open>Amount\<close> fields of the line items
  bearing \<open>K\<close>, added from left to right starting from zero as the loop does; the
  empty order key is never a key of the result.
\<close>

theorem AggregateSettlementsByOrderID_sums:
  "AggregateSettlementsByOrderID settlements K =
     (if K \<noteq> [] \<and> K \<in> Settlement.OrderID ` set settlements
      then Some (foldl (+) 0 (map Amount (filter (\<lambda>s. Settlement.OrderID s = K) settlements)))
      else None)
   \<and> [] \<notin> dom (AggregateSettlementsByOrderID settlements)"
  by (simp add: AggregateSettlementsByOrderID_def foldl_add_settlement domIff)

theorem AggregateSettlementsByOrderID_sums_witness:
  "AggregateSettlementsByOrderID
     [\<lparr>Settlement.ID = 0, SettlementID = ''S1'', SettlementStartDate = [], SettlementEndDate = [],
       DepositDate = [], Settlement.TotalAmount = 0, Currency = ''USD'', TransactionType = ''Order'',
       Settlement.OrderID = ''ORD001'', MerchantOrderID = [], AdjustmentID = [], ShipmentID = [],
       MarketplaceName = [], AmountType = [], AmountDescription = [], Amount = 6000 :: int,
       FulfillmentID = [], PostedDate = [], PostedDateTime = 0, OrderItemCode = [],
       MerchantOrderItemID = [], MerchantAdjustmentItemID = [], Settlement.SKU = [],
       QuantityPurchased = 0, Settlement.RawData = []\<rparr>,
      \<lparr>Settlement.ID = 0, SettlementID = ''S1'', SettlementStartDate = [], SettlementEndDate = [],
       DepositDate = [], Settlement.TotalAmount = 0, Currency = ''USD'', TransactionType = ''Order'',
       Settlement.OrderID = [], MerchantOrderID = [], AdjustmentID = [], ShipmentID = [],
       MarketplaceName = [], AmountType = [], AmountDescription = [], Amount = 900,
       FulfillmentID = [], PostedDate = [], PostedDateTime = 0, OrderItemCode = [],
       MerchantOrderItemID = [], MerchantAdjustmentItemID = [], Settlement.SKU = [],
       QuantityPurchased = 0, Settlement.RawData = []\<rparr>,
      \<lparr>Settlement.ID = 0, SettlementID = ''S1'', SettlementStartDate = [], SettlementEndDate = [],
       DepositDate = [], Settlement.TotalAmount = 0, Currency = ''USD'', TransactionType = ''Order'',
       Settlement.OrderID = ''ORD001'', MerchantOrderID = [], AdjustmentID = [], ShipmentID = [],
       MarketplaceName = [], AmountType = [], AmountDescription = [], Amount = 4000,
       FulfillmentID = [], PostedDate = [], PostedDateTime = 0, OrderItemCode = [],
       MerchantOrderItemID = [], MerchantAdjustmentItemID = [], Settlement.SKU = [],
       QuantityPurchased = 0, Settlement.RawData = []\<rparr>] ''ORD001'' = Some 10000"
  by (subst AggregateSettlementsByOrderID_sums [THEN conjunct1]) simp

text \<open>Where the addition of the amounts is associative with zero as its unit, the left-to-right
  sum is the sum of the list.\<close>

lemma AggregateSettlementsByOrderID_sum_list:
  fixes settlements :: "'a::monoid_add Settlement list"
  assumes "K \<noteq> []" and "K \<in> Settlement.OrderID ` set settlements"
  shows "AggregateSettlementsByOrderID settlements K =
     Some (sum_list (map Amount (filter (\<lambda>s. Settlement.OrderID s = K) settlements)))"
proof -
  have "foldl (+) a xs = a + sum_list xs" for a :: 'a and xs
    by (induction xs arbitrary: a) (simp_all add: add.assoc)
  from this [of 0] assms show ?thesis
    by (simp add: AggregateSettlementsByOrderID_def foldl_add_settlement)
qed

section \<open>Batch partitioning\<close>

declare chunks.simps [simp del]

lemma chunks_Nil [simp]: "chunks n [] = []"
  by (simp add: chunks.simps)

lemma chunks_step: "0 < n \<Longrightarrow> xs \<noteq> [] \<Longrightarrow> chunks n xs = take n xs # chunks n (drop n xs)"
  by (subst chunks.simps) simp

lemma concat_chunks: "0 < n \<Longrightarrow> concat (chunks n xs) = xs"
proof (induction n xs rule: chunks.induct)
  case (1 n xs)
  show ?case
  proof (cases "xs = []")
    case True
    then show ?thesis by simp
  next
    case False
    with 1 show ?thesis by (simp add: chunks_step)
  qed
qed

lemma chunks_eq_Nil: "0 < n \<Longrightarrow> chunks n xs = [] \<longleftrightarrow> xs = []"
  by (cases "xs = []") (simp_all add: chunks_step)

lemma chunks_member: "0 < n \<Longrightarrow> b \<in> set (chunks n xs) \<Longrightarrow> b \<noteq> [] \<and> length b \<le> n"
proof (induction n xs rule: chunks.induct)
  case (1 n xs)
  show ?case
  proof (cases "xs = []")
    case True
    with 1 show ?thesis by simp
  next
    case False
    with 1 show ?thesis by (auto simp add: chunks_step)
  qed
qed

lemma chunks_nth: "0 < n \<Longrightarrow> k < length (chunks n xs) \<Longrightarrow> chunks n xs ! k = take n (drop (k * n) xs)"
proof (induction n xs arbitrary: k rule: chunks.induct)
  case (1 n xs)
  show ?case
  proof (cases "xs = []")
    case True
    with 1 show ?thesis by simp
  next
    case False
    show ?thesis
    proof (cases k)
      case 0
      with False 1 show ?thesis by (simp add: chunks_step)
    next
      case (Suc j)
      with False 1 have "j < length (chunks n (drop n xs))" by (simp add: chunks_step)
      with 1 False have "chunks n (drop n xs) ! j = take n (drop (j * n) (drop n xs))" by simp
      with False 1 Suc show ?thesis by (simp add: chunks_step add.commute)
    qed
  qed
qed

lemma chunks_full: "0 < n \<Longrightarrow> Suc k < length (chunks n xs) \<Longrightarrow> length (chunks n xs ! k) = n"
proof (induction n xs arbitrary: k rule: chunks.induct)
  case (1 n xs)
  show ?case
  proof (cases "xs = []")
    case True
    with 1 show ?thesis by simp
  next
    case False
    show ?thesis
    proof (cases k)
      case 0
      with False 1 have "chunks n (drop n xs) \<noteq> []" by (simp add: chunks_step)
      with 1 have "drop n xs \<noteq> []" by (simp add: chunks_eq_Nil)
      with False 1 0 show ?thesis by (simp add: chunks_step)
    next
      case (Suc j)
      with False 1 have "Suc j < length (chunks n (drop n xs))" by (simp add: chunks_step)
      with 1 False have "length (chunks n (drop n xs) ! j) = n" by simp
      with False 1 Suc show ?thesis by (simp add: chunks_step)
    qed
  qed
qed

lemma createBatches_loop_chunks:
  "0 < n \<Longrightarrow> 0 \<le> i \<Longrightarrow>
     createBatches_loop n rs i acc = Some (Returns (acc @ chunks (nat n) (drop (nat i) rs)))"
proof (induction "length rs - nat i" arbitrary: i acc rule: less_induct)
  case less
  show ?case
  proof (cases "i < int (length rs)")
    case False
    then have "drop (nat i) rs = []" by simp
    with False show ?thesis by (subst createBatches_loop.simps) simp
  next
    case True
    let ?xs = "drop (nat i) rs"
    have ne: "?xs \<noteq> []" using True less.prems by simp
    have sl: "slice rs i (if i + n > int (length rs) then int (length rs) else i + n)
              = Returns (take (nat n) ?xs)"
      using True less.prems by (auto simp add: slice_def)
    have "length rs - nat (i + n) < length rs - nat i"
      using True less.prems by linarith
    moreover have "0 \<le> i + n" using less.prems by simp
    ultimately have IH: "createBatches_loop n rs (i + n) (acc @ [take (nat n) ?xs])
        = Some (Returns ((acc @ [take (nat n) ?xs]) @ chunks (nat n) (drop (nat (i + n)) rs)))"
      using less.hyps less.prems(1) by blast
    have dr: "drop (nat (i + n)) rs = drop (nat n) ?xs"
      using less.prems by (simp add: nat_add_distrib add.commute)
    have ch: "chunks (nat n) ?xs = take (nat n) ?xs # chunks (nat n) (drop (nat n) ?xs)"
      using ne less.prems by (simp add: chunks_step)
    show ?thesis
      apply (subst createBatches_loop.simps)
      using True sl IH dr ch by (simp add: Let_def)
  qed
qed

lemma contiguous_chunks: "0 < n \<Longrightarrow> contiguous_batches n rs (chunks n rs)"
  unfolding contiguous_batches_def
  using concat_chunks [of n rs] chunks_member [of n _ rs] chunks_full [of n _ rs] chunks_nth [of n _ rs]
  by blast

lemma createBatches_example:
  "BatchInserter_createBatches (NewBatchInserter 2 1) [a, b, c, d, e]
     = Some (Returns [[a, b], [c, d], [e]])"
  by (simp add: BatchInserter_createBatches_def NewBatchInserter_def createBatches_loop.simps
      slice_def Let_def)

lemma createBatches_single:
  "BatchInserter_createBatches (NewBatchInserter 3 1) [a] = Some (Returns [[a]])
   \<and> BatchInserter_createBatches (NewBatchInserter 3 1) ([] :: 'a list) = Some (Returns [])"
  by (simp add: BatchInserter_createBatches_def NewBatchInserter_def createBatches_loop.simps
      slice_def Let_def)

text \<open>
  Claim C3. For every record list (the empty and the one-element list included) and every
  batch size of at least 1, \<^verbatim>\<open>createBatches\<close> of either inserter returns, and what it
  returns is a partition into contiguous batches: the batches concatenated in order are
  the record list itself (so nothing is lost, repeated or reordered), every batch has at
  least one and at most \<open>batchSize\<close> records, only the last batch may hold fewer than
  \<open>batchSize\<close>, and the \<open>k\<close>-th batch is the window of the list that starts at
  \<open>k * batchSize\<close>.
\<close>

theorem createBatches_partition:
  assumes "1 \<le> BatchInserter.batchSize bi" and "1 \<le> PreparedBatchInserter.batchSize pbi"
  shows "(\<exists>batches. BatchInserter_createBatches bi rs = Some (Returns batches)
            \<and> contiguous_batches (nat (BatchInserter.batchSize bi)) rs batches)
       \<and> (\<exists>batches. PreparedBatchInserter_createBatches pbi rs = Some (Returns batches)
            \<and> contiguous_batches (nat (PreparedBatchInserter.batchSize pbi)) rs batches)"
proof
  have "BatchInserter_createBatches bi rs
          = Some (Returns (chunks (nat (BatchInserter.batchSize bi)) rs))"
    unfolding BatchInserter_createBatches_def
    using assms(1) createBatches_loop_chunks [of "BatchInserter.batchSize bi" 0 rs "[]"] by simp
  moreover have "contiguous_batches (nat (BatchInserter.batchSize bi)) rs
      (chunks (nat (BatchInserter.batchSize bi)) rs)"
    using assms(1) by (intro contiguous_chunks) simp
  ultimately show "\<exists>batches. BatchInserter_createBatches bi rs = Some (Returns batches)
            \<and> contiguous_batches (nat (BatchInserter.batchSize bi)) rs batches"
    by blast
next
  have "PreparedBatchInserter_createBatches pbi rs
          = Some (Returns (chunks (nat (PreparedBatchInserter.batchSize pbi)) rs))"
    unfolding PreparedBatchInserter_createBatches_def
    using assms(2) createBatches_loop_chunks [of "PreparedBatchInserter.batchSize pbi" 0 rs "[]"]
    by simp
  moreover have "contiguous_batches (nat (PreparedBatchInserter.batchSize pbi)) rs
      (chunks (nat (PreparedBatchInserter.batchSize pbi)) rs)"
    using assms(2) by (intro contiguous_chunks) simp
  ultimately show "\<exists>batches. PreparedBatchInserter_createBatches pbi rs = Some (Returns batches)
            \<and> contiguous_batches (nat (PreparedBatchInserter.batchSize pbi)) rs batches"
    by blast
qed

theorem createBatches_partition_witness:
  "1 \<le> BatchInserter.batchSize (NewBatchInserter 2 1)
   \<and> 1 \<le> PreparedBatchInserter.batchSize
        \<lparr>PreparedBatchInserter.stmt = ''INSERT'', PreparedBatchInserter.batchSize = 2,
         PreparedBatchInserter.workers = 1\<rparr>
   \<and> (\<exists>batches. BatchInserter_createBatches (NewBatchInserter 2 1) [1, 2, 3, 4, 5 :: nat]
          = Some (Returns batches)
        \<and> contiguous_batches 2 [1, 2, 3, 4, 5] batches)
   \<and> (\<exists>batches. PreparedBatchInserter_createBatches
          \<lparr>PreparedBatchInserter.stmt = ''INSERT'', PreparedBatchInserter.batchSize = 2,
           PreparedBatchInserter.workers = 1\<rparr> [1, 2, 3, 4, 5 :: nat]
          = Some (Returns batches)
        \<and> contiguous_batches 2 [1, 2, 3, 4, 5] batches)"
  using createBatches_partition [of "NewBatchInserter 2 1"
      "\<lparr>PreparedBatchInserter.stmt = ''INSERT'', PreparedBatchInserter.batchSize = 2,
        PreparedBatchInserter.workers = 1\<rparr>" "[1, 2, 3, 4, 5 :: nat]"]
  by (simp add: NewBatchInserter_def)

section \<open>Constructors of the inserters\<close>

text \<open>
  Claim C10. No constructor rejects its sizing parameters: \<^verbatim>\<open>NewBatchInserter\<close> has no
  error result at all, and the other two fail exactly when preparing the statement
  fails, whatever the sizes are. Every inserter that is built from \<open>batchSize \<le> 0\<close>
  has batch size 1000, and every inserter built from \<open>workers \<le> 0\<close> has 4 workers.
\<close>

theorem constructors_substitute_defaults:
  "(batchSize' \<le> 0 \<longrightarrow> BatchInserter.batchSize (NewBatchInserter batchSize' workers') = 1000)
   \<and> (workers' \<le> 0 \<longrightarrow> BatchInserter.workers (NewBatchInserter batchSize' workers') = 4)
   \<and> (isl (NewPreparedBatchInserter F batchSize' workers') \<longleftrightarrow> prepare_err F \<noteq> None)
   \<and> (isl (NewStreamingBatchInserter F batchSize' workers') \<longleftrightarrow> prepare_err F \<noteq> None)
   \<and> (\<forall>pbi. NewPreparedBatchInserter F batchSize' workers' = Inr pbi \<longrightarrow>
         (batchSize' \<le> 0 \<longrightarrow> PreparedBatchInserter.batchSize pbi = 1000)
         \<and> (workers' \<le> 0 \<longrightarrow> PreparedBatchInserter.workers pbi = 4))
   \<and> (\<forall>sbi. NewStreamingBatchInserter F batchSize' workers' = Inr sbi \<longrightarrow>
         (batchSize' \<le> 0 \<longrightarrow> StreamingBatchInserter.batchSize sbi = 1000)
         \<and> (workers' \<le> 0 \<longrightarrow> StreamingBatchInserter.workers sbi = 4))"
  by (auto simp add: NewBatchInserter_def NewPreparedBatchInserter_def
      NewStreamingBatchInserter_def Preparex_def DefaultBatchSize_def DefaultWorkers_def
      split: option.splits)

theorem constructors_substitute_defaults_witness:
  "(0::int) \<le> 0 \<and> (- 3 :: int) \<le> 0
   \<and> BatchInserter.batchSize (NewBatchInserter 0 (- 3)) = 1000
   \<and> BatchInserter.workers (NewBatchInserter 0 (- 3)) = 4
   \<and> NewPreparedBatchInserter example_Faults 0 (- 3) = Inr
        \<lparr>PreparedBatchInserter.stmt =
           ''INSERT INTO records (source, order_id, date, total_amount, raw_data) VALUES ($1, $2, $3, $4, $5)'',
         PreparedBatchInserter.batchSize = 1000, PreparedBatchInserter.workers = 4\<rparr>
   \<and> NewStreamingBatchInserter example_Faults 0 (- 3) = Inr
        \<lparr>StreamingBatchInserter.batchSize = 1000, StreamingBatchInserter.workers = 4,
         StreamingBatchInserter.stmt =
           ''INSERT INTO records (source, order_id, date, total_amount, raw_data) VALUES ($1, $2, $3, $4, $5)''\<rparr>"
  using constructors_substitute_defaults [of 0 "- 3" example_Faults]
  by (simp add: NewPreparedBatchInserter_def NewStreamingBatchInserter_def Preparex_def
      example_Faults_def DefaultBatchSize_def DefaultWorkers_def)

section \<open>The normalizers\<close>

lemma example_TrimSpace_simps:
  "example_TrimSpace ''date/time'' = ''date/time''"
  "example_TrimSpace [] = []"
  "example_TrimSpace ''abc'' = ''abc''"
  "example_TrimSpace ''0.00'' = ''0.00''"
  "example_TrimSpace ''100.00'' = ''100.00''"
  "example_TrimSpace ''2024-03-01'' = ''2024-03-01''"
  by (simp_all add: example_TrimSpace_def)

lemma make_data_example:
  "make_data example_Lib example_headers [d, '' ORD001 '', t]
     = [example_TrimSpace ''date/time'' \<mapsto> example_TrimSpace d,
        ''order id'' \<mapsto> ''ORD001'', ''total'' \<mapsto> example_TrimSpace t]"
  by (simp add: make_data_def example_Lib_def example_headers_def example_TrimSpace_def)

text \<open>
  Claim C6. Parsing a numeric field never fails: \<^verbatim>\<open>parseFloat\<close> and
  \<^verbatim>\<open>parseSettlementFloat\<close> return a number for every string, zero for the empty
  string and zero for every string that \<^verbatim>\<open>strconv.ParseFloat\<close> rejects. Neither
  normalizer returns an error for the content of a field: each fails exactly when the
  row has fewer fields than the header, and otherwise its amounts are what these
  functions return for the fields.
\<close>

theorem numeric_parsing_total:
  "parseFloat L [] = 0 \<and> parseSettlementFloat L [] = 0
   \<and> (ParseFloat L s = Inl err \<longrightarrow> parseFloat L s = 0 \<and> parseSettlementFloat L s = 0)
   \<and> (isl (PaymentFromCSVRow L now headers row) \<longleftrightarrow> length row < length headers)
   \<and> (isl (SettlementFromTSVRow L now headers row) \<longleftrightarrow> length row < length headers)
   \<and> (\<forall>payment. PaymentFromCSVRow L now headers row = Inr payment \<longrightarrow>
         Total payment = parseFloat L (index_data (make_data L headers row) ''total''))
   \<and> (\<forall>settlement. SettlementFromTSVRow L now headers row = Inr settlement \<longrightarrow>
         Amount settlement = parseSettlementFloat L (index_data (make_data L headers row) ''amount'')
         \<and> Settlement.TotalAmount settlement
             = parseSettlementFloat L (index_data (make_data L headers row) ''total-amount''))"
  by (auto simp add: parseFloat_def parseSettlementFloat_def PaymentFromCSVRow_def
      SettlementFromTSVRow_def Let_def)

theorem numeric_parsing_total_witness:
  "parseFloat example_Lib [] = 0 \<and> parseSettlementFloat example_Lib [] = 0
   \<and> ParseFloat example_Lib ''abc'' = Inl (External 1)
   \<and> parseFloat example_Lib ''abc'' = 0 \<and> parseSettlementFloat example_Lib ''abc'' = 0
   \<and> \<not> isl (PaymentFromCSVRow example_Lib 7 example_headers [[], '' ORD001 '', ''abc''])
   \<and> map_sum id Total (PaymentFromCSVRow example_Lib 7 example_headers [[], '' ORD001 '', ''abc''])
       = Inr 0"
  using numeric_parsing_total [of example_Lib "''abc''" "External 1" 7 example_headers
      "[[], '' ORD001 '', ''abc'']"]
  by (simp add: make_data_example example_TrimSpace_simps index_data_def parseFloat_def
      PaymentFromCSVRow_def Let_def)
    (simp add: example_Lib_def example_ParseFloat_def example_headers_def)

lemma PaymentFromCSVRow_example_empty_date:
  "PaymentFromCSVRow example_Lib now example_headers [[], '' ORD001 '', ''100.00'']
     = Inr \<lparr>Payment.ID = 0, Payment.OrderID = ''ORD001'', Payment.Date = zero_Time,
        Payment.SettlementID = [], Type = [], Payment.SKU = [], Description = [], Quantity = 0,
        Marketplace = [], AccountType = [], Fulfillment = [], TaxCollectionModel = [],
        ProductSales = 0, ProductSalesTax = 0, ShippingCredits = 0, ShippingCreditsTax = 0,
        GiftWrapCredits = 0, GiftwrapCreditsTax = 0, RegulatoryFee = 0, TaxOnRegulatoryFee = 0,
        PromotionalRebates = 0, PromotionalRebatesTax = 0, MarketplaceWithheldTax = 0,
        SellingFees = 0, FBAFees = 0, OtherTransactionFees = 0, Other = 0, Total = 10000,
        Payment.RawData = ''{}''\<rparr>"
  by (simp add: PaymentFromCSVRow_def make_data_example example_TrimSpace_simps index_data_def
      parseFloat_def Let_def)
    (simp add: example_Lib_def example_ParseFloat_def example_headers_def)

text \<open>
  Claim C7, as the specification states it, fails on a row whose date field is empty
  (or whose header has no date column): both formats reject the empty string, the rule
  of the specification would give the current time (1000 here), and the record keeps
  the zero value of \<^verbatim>\<open>time.Time\<close>, because the code parses the field only when it
  is not empty.
\<close>

theorem timestamp_counterexample:
  "map_sum id Payment.Date
     (PaymentFromCSVRow example_Lib 1000 example_headers [[], '' ORD001 '', ''100.00''])
     = Inr zero_Time
   \<and> index_data (make_data example_Lib example_headers [[], '' ORD001 '', ''100.00'']) ''date/time'' = []
   \<and> time_Parse example_Lib ''Jan 2, 2006 3:04:05 PM MST'' [] = Inl (External 2)
   \<and> time_Parse example_Lib ''2006-01-02'' [] = Inl (External 2)
   \<and> parse_or_now example_Lib 1000 ''Jan 2, 2006 3:04:05 PM MST'' ''2006-01-02'' [] = 1000
   \<and> zero_Time \<noteq> 1000"
  by (simp add: PaymentFromCSVRow_example_empty_date make_data_example example_TrimSpace_simps
      index_data_def parse_or_now_def zero_Time_def)
    (simp add: example_Lib_def example_time_Parse_def)

text \<open>
  Claim C7, amended. For every row that normalization accepts, when the date field is
  not empty the timestamp is the field parsed with the primary format, else with the
  fallback format, else the current time; when the date field is empty or missing no
  parse is attempted and the timestamp is the zero value of \<^verbatim>\<open>time.Time\<close>. This
  holds for payments (field \<^verbatim>\<open>date/time\<close>) and settlements (field
  \<^verbatim>\<open>posted-date-time\<close>).
\<close>

theorem timestamp_rule:
  assumes "length headers \<le> length row"
  shows "(\<exists>payment. PaymentFromCSVRow L now headers row = Inr payment
           \<and> Payment.Date payment =
               (let dateStr = index_data (make_data L headers row) ''date/time''
                in if dateStr = [] then zero_Time
                   else parse_or_now L now ''Jan 2, 2006 3:04:05 PM MST'' ''2006-01-02'' dateStr))
       \<and> (\<exists>settlement. SettlementFromTSVRow L now headers row = Inr settlement
           \<and> PostedDateTime settlement =
               (let dateStr = index_data (make_data L headers row) ''posted-date-time''
                in if dateStr = [] then zero_Time
                   else parse_or_now L now ''2006-01-02 15:04:05 MST'' ''2006-01-02 15:04:05'' dateStr))"
  using assms
  by (simp add: PaymentFromCSVRow_def SettlementFromTSVRow_def parse_or_now_def Let_def)

theorem timestamp_rule_witness:
  "length example_headers \<le> length [''garbled'', '' ORD001 '', ''100.00'']
   \<and> map_sum id Payment.Date
       (PaymentFromCSVRow example_Lib 1000 example_headers [''garbled'', '' ORD001 '', ''100.00''])
       = Inr 1000
   \<and> map_sum id Payment.Date
       (PaymentFromCSVRow example_Lib 1000 example_headers [''2024-03-01'', '' ORD001 '', ''100.00''])
       = Inr 63844848000"
proof -
  have 1: "index_data (make_data example_Lib example_headers [''garbled'', '' ORD001 '', ''100.00''])
      ''date/time'' = ''garbled''"
    by (simp add: make_data_example example_TrimSpace_simps index_data_def)
      (simp add: example_TrimSpace_def)
  have 2: "index_data (make_data example_Lib example_headers [''2024-03-01'', '' ORD001 '', ''100.00''])
      ''date/time'' = ''2024-03-01''"
    by (simp add: make_data_example example_TrimSpace_simps index_data_def)
  have 3: "parse_or_now example_Lib 1000 ''Jan 2, 2006 3:04:05 PM MST'' ''2006-01-02'' ''garbled'' = 1000"
    by (simp add: parse_or_now_def example_Lib_def example_time_Parse_def)
  have 4: "parse_or_now example_Lib 1000 ''Jan 2, 2006 3:04:05 PM MST'' ''2006-01-02'' ''2024-03-01''
      = 63844848000"
    by (simp add: parse_or_now_def example_Lib_def example_time_Parse_def)
  have 5: "length example_headers \<le> length [a, b, c :: string]" for a b c
    by (simp add: example_headers_def)
  show ?thesis
    using timestamp_rule [OF 5, of example_Lib 1000 "''garbled''" "'' ORD001 ''" "''100.00''"]
      timestamp_rule [OF 5, of example_Lib 1000 "''2024-03-01''" "'' ORD001 ''" "''100.00''"]
    unfolding 1 2 Let_def
    by (auto simp add: 3 4 example_headers_def)
qed

section \<open>The payment ingestor\<close>

lemma scan_headers_none:
  "\<not> list_ex is_header (take n lines) \<Longrightarrow>
     scan_headers n lines read_err = (if length lines < n then Inl read_err else Inr ([], drop n lines))"
  by (induction n lines read_err rule: scan_headers.induct) (auto simp add: is_header_def)

lemma scan_headers_found:
  "list_ex is_header (take n lines) \<Longrightarrow>
     \<exists>pre h post. lines = pre @ h # post \<and> length pre < n \<and> \<not> list_ex is_header pre
        \<and> is_header h \<and> scan_headers n lines read_err = Inr (h, post)"
proof (induction n lines read_err rule: scan_headers.induct)
  case (1 lines read_err)
  then show ?case by simp
next
  case (2 n read_err)
  then show ?case by simp
next
  case (3 n line lines read_err)
  show ?case
  proof (cases "is_header line")
    case True
    then have "line # lines = [] @ line # lines \<and> length ([] :: string list list) < Suc n
        \<and> \<not> list_ex is_header [] \<and> is_header line
        \<and> scan_headers (Suc n) (line # lines) read_err = Inr (line, lines)"
      by (simp add: is_header_def)
    then show ?thesis by blast
  next
    case False
    from False have nh: "\<not> (0 < length line \<and> Contains (hd line) ''date/time'')"
      by (simp add: is_header_def)
    from False "3.prems" have "list_ex is_header (take n lines)" by simp
    from "3.IH" [OF nh this] obtain pre h post where *: "lines = pre @ h # post" "length pre < n"
        "\<not> list_ex is_header pre" "is_header h" "scan_headers n lines read_err = Inr (h, post)"
      by blast
    with False have "line # lines = (line # pre) @ h # post \<and> length (line # pre) < Suc n
        \<and> \<not> list_ex is_header (line # pre) \<and> is_header h
        \<and> scan_headers (Suc n) (line # lines) read_err = Inr (h, post)"
      by (simp add: is_header_def)
    then show ?thesis by blast
  qed
qed

text \<open>
  Claim C8, as the specification states it, fails on a source that ends before the
  header scan has read 20 lines: a file of two lines, neither bearing the marker, makes
  \<^verbatim>\<open>ParseAndStorePayments\<close> return the reader's \<^verbatim>\<open>io.EOF\<close>, not the error
  \<^verbatim>\<open>headers not found\<close>.
\<close>

theorem header_scan_counterexample:
  "ParseAndStorePayments example_Lib no_faults (\<lambda>k. 0)
     (Inr ([[''Includes Amazon Marketplace''], [''All amounts in USD'']], io_EOF)) empty_DB
     = (empty_DB, None, Some io_EOF)
   \<and> \<not> is_header [''Includes Amazon Marketplace''] \<and> \<not> is_header [''All amounts in USD'']
   \<and> io_EOF \<noteq> Errorf ''headers not found''"
  by (simp add: ParseAndStorePayments_def is_header_def eval_nat_numeral)

text \<open>
  Claim C8, amended. The payment ingestor looks for the header in the first 20 lines only,
  taking the first line whose first field contains \<^verbatim>\<open>date/time\<close>. When none of these
  lines bears the marker it fails and processes no data row (the store is unchanged, no
  count is printed): with the error \<^verbatim>\<open>headers not found\<close> when the source has at
  least 20 lines, with the reader's own error (\<^verbatim>\<open>io.EOF\<close> at the end of the file)
  when the source ends earlier. When one of them bears the marker, the lines before it
  are skipped, the data loop runs on the lines after it, and no error is returned.
\<close>

theorem header_scan_bounded:
  "(\<not> list_ex is_header (take 20 lines) \<longrightarrow>
      ParseAndStorePayments L F clock (Inr (lines, read_err)) db
        = (db, None, Some (if length lines < 20 then read_err else Errorf ''headers not found'')))
   \<and> (list_ex is_header (take 20 lines) \<longrightarrow>
      (\<exists>pre headers rest. lines = pre @ headers # rest \<and> length pre < 20
         \<and> \<not> list_ex is_header pre \<and> is_header headers
         \<and> ParseAndStorePayments L F clock (Inr (lines, read_err)) db
             = (fst (store_payments L F clock headers rest 0 (db, 0)),
                Some (snd (store_payments L F clock headers rest 0 (db, 0))), None)))"
proof (intro conjI impI)
  assume "\<not> list_ex is_header (take 20 lines)"
  then show "ParseAndStorePayments L F clock (Inr (lines, read_err)) db
        = (db, None, Some (if length lines < 20 then read_err else Errorf ''headers not found''))"
    by (simp add: ParseAndStorePayments_def scan_headers_none)
next
  assume "list_ex is_header (take 20 lines)"
  then obtain pre h post where *: "lines = pre @ h # post" "length pre < 20"
      "\<not> list_ex is_header pre" "is_header h" "scan_headers 20 lines read_err = Inr (h, post)"
    using scan_headers_found by blast
  from *(4) have "length h \<noteq> 0" by (simp add: is_header_def)
  with *(5) have "ParseAndStorePayments L F clock (Inr (lines, read_err)) db
             = (fst (store_payments L F clock h post 0 (db, 0)),
                Some (snd (store_payments L F clock h post 0 (db, 0))), None)"
    by (simp add: ParseAndStorePayments_def split_beta)
  with * show "\<exists>pre headers rest. lines = pre @ headers # rest \<and> length pre < 20
         \<and> \<not> list_ex is_header pre \<and> is_header headers
         \<and> ParseAndStorePayments L F clock (Inr (lines, read_err)) db
             = (fst (store_payments L F clock headers rest 0 (db, 0)),
                Some (snd (store_payments L F clock headers rest 0 (db, 0))), None)"
    by blast
qed

theorem header_scan_bounded_witness:
  "\<not> list_ex is_header (take 20 (replicate 20 [''junk''] @ [example_headers]))
   \<and> ParseAndStorePayments example_Lib no_faults (\<lambda>k. 5)
        (Inr (replicate 20 [''junk''] @ [example_headers], io_EOF)) empty_DB
        = (empty_DB, None, Some (Errorf ''headers not found''))
   \<and> list_ex is_header (take 20 [[''junk''], example_headers, [''2024-03-01'', ''ORD001'']])
   \<and> (\<exists>pre headers rest.
         [[''junk''], example_headers, [''2024-03-01'', ''ORD001'']] = pre @ headers # rest
         \<and> length pre < 20 \<and> \<not> list_ex is_header pre \<and> is_header headers
         \<and> ParseAndStorePayments example_Lib no_faults (\<lambda>k. 5)
              (Inr ([[''junk''], example_headers, [''2024-03-01'', ''ORD001'']], io_EOF)) empty_DB
             = (fst (store_payments example_Lib no_faults (\<lambda>k. 5) headers rest 0 (empty_DB, 0)),
                Some (snd (store_payments example_Lib no_faults (\<lambda>k. 5) headers rest 0 (empty_DB, 0))),
                None))"
proof -
  have 1: "\<not> list_ex is_header (take 20 (replicate 20 [''junk''] @ [example_headers]))"
    by (simp add: list_ex_iff is_header_def)
  have 2: "list_ex is_header (take 20 [[''junk''], example_headers, [''2024-03-01'', ''ORD001'']])"
    by (simp add: is_header_def example_headers_def)
  show ?thesis
    using header_scan_bounded [of "replicate 20 [''junk''] @ [example_headers]" example_Lib
        no_faults "\<lambda>k. 5" io_EOF empty_DB, THEN conjunct1, rule_format, OF 1]
      header_scan_bounded [of "[[''junk''], example_headers, [''2024-03-01'', ''ORD001'']]"
        example_Lib no_faults "\<lambda>k. 5" io_EOF empty_DB, THEN conjunct2, rule_format, OF 2]
      1 2
    by simp
qed

lemma insert_record_no_fault:
  "insert_record_err F r = None \<Longrightarrow>
     map Record_values (records (Exec_dropped (insert_record F r db) db))
       = map Record_values (records db) @ [r]"
  by (simp add: insert_record_def Exec_dropped_def Record_values_def)

lemma zip_upt_Cons:
  "zip [k..<k + length (x # xs)] (x # xs) = (k, x) # zip [Suc k..<Suc k + length xs] xs"
  by (simp add: upt_conv_Cons del: upt_Suc)

lemma store_payments_filter:
  assumes "headers \<noteq> []" and "\<forall>r. insert_record_err F r = None"
  shows "map Record_values (records (fst (store_payments L F clock headers lines k (db, n))))
           = map Record_values (records db)
             @ map (\<lambda>(j, line). payment_values (projr (PaymentFromCSVRow L (clock j) headers line)))
                 (filter (\<lambda>(j, line). accepted (PaymentFromCSVRow L (clock j) headers line))
                    (zip [k..<k + length lines] lines))
         \<and> snd (store_payments L F clock headers lines k (db, n))
           = n + length (filter (\<lambda>(j, line). accepted (PaymentFromCSVRow L (clock j) headers line))
                    (zip [k..<k + length lines] lines))"
proof (induction lines arbitrary: k db n)
  case Nil
  show ?case by simp
next
  case (Cons line lines)
  let ?res = "PaymentFromCSVRow L (clock k) headers line"
  show ?case
  proof (cases "accepted ?res")
    case False
    have "store_payments L F clock headers (line # lines) k (db, n)
            = store_payments L F clock headers lines (Suc k) (db, n)"
      using False by (auto simp add: accepted_def split: sum.splits)
    then show ?thesis
      unfolding zip_upt_Cons
      using False Cons.IH [of "Suc k" db n] by (simp del: upt_Suc)
  next
    case True
    then obtain payment where p: "?res = Inr payment" "Payment.OrderID payment \<noteq> []"
        "Total payment \<noteq> 0"
      by (auto simp add: accepted_def split: sum.splits)
    from p(1) assms(1) have "length line \<noteq> 0"
      by (auto simp add: PaymentFromCSVRow_def split: if_splits)
    let ?db = "Exec_dropped (insert_record F (payment_values payment) db) db"
    have step: "store_payments L F clock headers (line # lines) k (db, n)
            = store_payments L F clock headers lines (Suc k) (?db, n + 1)"
      using p \<open>length line \<noteq> 0\<close> by (simp add: payment_values_def)
    have stored: "map Record_values (records ?db)
        = map Record_values (records db) @ [payment_values payment]"
      using assms(2) by (simp add: insert_record_no_fault)
    show ?thesis
      unfolding step zip_upt_Cons
      using True p(1) Cons.IH [of "Suc k" ?db "n + 1"] stored by (simp del: upt_Suc)
  qed
qed

text \<open>
  Claim C5. Once the header is found, and on a store that accepts every insert, the rows
  that \<^verbatim>\<open>ParseAndStorePayments\<close> adds to \<^verbatim>\<open>records\<close> are, in file order, the
  normalized payments of exactly those data rows for which normalization succeeds, the
  order key is not empty and the total is not zero (the predicate \<open>accepted\<close>); the
  count it prints is the number of these rows. A row whose total parses to zero is
  therefore dropped.
\<close>

theorem payment_rows_filter:
  assumes "scan_headers 20 lines read_err = Inr (headers, rest)"
    and "headers \<noteq> []"
    and "\<forall>r. insert_record_err F r = None"
  shows "\<exists>db'. ParseAndStorePayments L F clock (Inr (lines, read_err)) db
           = (db', Some (length (filter (\<lambda>(j, line).
                 accepted (PaymentFromCSVRow L (clock j) headers line))
                    (zip [0..<length rest] rest))), None)
         \<and> map Record_values (records db')
           = map Record_values (records db)
             @ map (\<lambda>(j, line). payment_values (projr (PaymentFromCSVRow L (clock j) headers line)))
                 (filter (\<lambda>(j, line). accepted (PaymentFromCSVRow L (clock j) headers line))
                    (zip [0..<length rest] rest))"
proof -
  from assms(2) have "length headers \<noteq> 0" by simp
  with assms(1) have "ParseAndStorePayments L F clock (Inr (lines, read_err)) db
      = (fst (store_payments L F clock headers rest 0 (db, 0)),
         Some (snd (store_payments L F clock headers rest 0 (db, 0))), None)"
    by (simp add: ParseAndStorePayments_def split_beta)
  with store_payments_filter [OF assms(2,3), of L clock rest 0 db 0] show ?thesis
    by simp
qed

lemma PaymentFromCSVRow_returns:
  "length headers \<le> length row \<Longrightarrow> \<exists>payment. PaymentFromCSVRow L now headers row = Inr payment"
  by (simp add: PaymentFromCSVRow_def Let_def)

lemma make_data_example_row:
  "make_data example_Lib example_headers [d, k, t]
     = [''date/time'' \<mapsto> example_TrimSpace d, ''order id'' \<mapsto> example_TrimSpace k,
        ''total'' \<mapsto> example_TrimSpace t]"
  by (simp add: make_data_def example_Lib_def example_headers_def example_TrimSpace_def)

lemma PaymentFromCSVRow_fields:
  "PaymentFromCSVRow L now headers row = Inr payment \<Longrightarrow>
     Payment.OrderID payment = index_data (make_data L headers row) ''order id''
     \<and> Total payment = parseFloat L (index_data (make_data L headers row) ''total'')
     \<and> Payment.RawData payment = Marshal L (make_data L headers row)
     \<and> Payment.Date payment =
         (if index_data (make_data L headers row) ''date/time'' = [] then zero_Time
          else parse_or_now L now ''Jan 2, 2006 3:04:05 PM MST'' ''2006-01-02''
                 (index_data (make_data L headers row) ''date/time''))"
  by (auto simp add: PaymentFromCSVRow_def Let_def parse_or_now_def split: if_splits)

lemma PaymentFromCSVRow_example_values:
  assumes "PaymentFromCSVRow example_Lib now example_headers [d, k, t] = Inr payment"
  shows "Payment.OrderID payment = example_TrimSpace k
     \<and> Total payment = parseFloat example_Lib (example_TrimSpace t)
     \<and> Payment.RawData payment = ''{}''
     \<and> Payment.Date payment =
         (if example_TrimSpace d = [] then zero_Time
          else parse_or_now example_Lib now ''Jan 2, 2006 3:04:05 PM MST'' ''2006-01-02''
                 (example_TrimSpace d))"
proof -
  have "index_data (make_data example_Lib example_headers [d, k, t]) ''order id'' = example_TrimSpace k"
    and "index_data (make_data example_Lib example_headers [d, k, t]) ''total'' = example_TrimSpace t"
    and "index_data (make_data example_Lib example_headers [d, k, t]) ''date/time'' = example_TrimSpace d"
    by (simp_all add: make_data_example_row index_data_def)
  moreover have "Marshal example_Lib (make_data example_Lib example_headers [d, k, t]) = ''{}''"
    by (simp add: example_Lib_def)
  ultimately show ?thesis
    using PaymentFromCSVRow_fields [OF assms] by simp
qed

lemma accepted_example_row:
  "accepted (PaymentFromCSVRow example_Lib now example_headers [d, k, t])
     \<longleftrightarrow> example_TrimSpace k \<noteq> [] \<and> parseFloat example_Lib (example_TrimSpace t) \<noteq> 0"
proof -
  obtain payment where p: "PaymentFromCSVRow example_Lib now example_headers [d, k, t] = Inr payment"
    using PaymentFromCSVRow_returns [of example_headers "[d, k, t]" example_Lib now]
    by (auto simp add: example_headers_def)
  from PaymentFromCSVRow_example_values [OF p] show ?thesis
    by (simp add: p accepted_def)
qed

lemma accepted_short_row:
  "\<not> accepted (PaymentFromCSVRow example_Lib now example_headers [d, k])"
  by (simp add: PaymentFromCSVRow_def example_headers_def accepted_def)

lemma example_values:
  "example_TrimSpace ''ORD001'' = ''ORD001''"
  "example_TrimSpace ''ORD003'' = ''ORD003''"
  "example_TrimSpace '' '' = []"
  "example_TrimSpace ''12.50'' = ''12.50''"
  "example_TrimSpace ''0.00'' = ''0.00''"
  "example_TrimSpace ''100.00'' = ''100.00''"
  "example_TrimSpace ''2024-03-01'' = ''2024-03-01''"
  "parseFloat example_Lib ''100.00'' = 10000"
  "parseFloat example_Lib ''0.00'' = 0"
  "parseFloat example_Lib ''12.50'' = 1250"
  by (simp_all add: example_TrimSpace_def parseFloat_def example_Lib_def example_ParseFloat_def)

theorem payment_rows_filter_witness:
  "scan_headers 20
     [[''Includes Amazon Marketplace''], example_headers,
      [''2024-03-01'', ''ORD001'', ''100.00''], [''2024-03-01'', ''ORD003'', ''0.00''],
      [''2024-03-01'', '' '', ''12.50''], [''2024-03-01'', ''ORD003'']] io_EOF
     = Inr (example_headers,
        [[''2024-03-01'', ''ORD001'', ''100.00''], [''2024-03-01'', ''ORD003'', ''0.00''],
         [''2024-03-01'', '' '', ''12.50''], [''2024-03-01'', ''ORD003'']])
   \<and> example_headers \<noteq> []
   \<and> (\<forall>r :: int BatchRecord. insert_record_err no_faults r = None)
   \<and> (\<exists>db'. ParseAndStorePayments example_Lib no_faults (\<lambda>k. 5)
         (Inr ([[''Includes Amazon Marketplace''], example_headers,
            [''2024-03-01'', ''ORD001'', ''100.00''], [''2024-03-01'', ''ORD003'', ''0.00''],
            [''2024-03-01'', '' '', ''12.50''], [''2024-03-01'', ''ORD003'']], io_EOF)) empty_DB
         = (db', Some 1, None)
       \<and> map Record_values (records db')
         = [\<lparr>BatchRecord.Source = ''payments'', BatchRecord.OrderID = ''ORD001'',
             BatchRecord.Date = 63844848000, BatchRecord.TotalAmount = 10000,
             BatchRecord.RawData = ''{}''\<rparr>])"
proof -
  have h1: "scan_headers 20
     [[''Includes Amazon Marketplace''], example_headers,
      [''2024-03-01'', ''ORD001'', ''100.00''], [''2024-03-01'', ''ORD003'', ''0.00''],
      [''2024-03-01'', '' '', ''12.50''], [''2024-03-01'', ''ORD003'']] io_EOF
     = Inr (example_headers,
        [[''2024-03-01'', ''ORD001'', ''100.00''], [''2024-03-01'', ''ORD003'', ''0.00''],
         [''2024-03-01'', '' '', ''12.50''], [''2024-03-01'', ''ORD003'']])"
    by (simp add: eval_nat_numeral example_headers_def)
  have h2: "example_headers \<noteq> []" by (simp add: example_headers_def)
  have h3: "\<forall>r :: int BatchRecord. insert_record_err no_faults r = None"
    by (simp add: no_faults_def)
  have z: "zip [0..<length [a, b, c, d]] [a, b, c, d] = [(0, a), (1, b), (2, c), (3, d)]"
    for a b c d :: "string list"
    by (simp add: upt_rec)
  obtain payment where p: "PaymentFromCSVRow example_Lib 5 example_headers
      [''2024-03-01'', ''ORD001'', ''100.00''] = Inr payment"
    using PaymentFromCSVRow_returns [of example_headers
        "[''2024-03-01'', ''ORD001'', ''100.00'']" example_Lib 5]
    by (auto simp add: example_headers_def)
  have v: "payment_values payment
     = \<lparr>BatchRecord.Source = ''payments'', BatchRecord.OrderID = ''ORD001'',
             BatchRecord.Date = 63844848000, BatchRecord.TotalAmount = 10000,
             BatchRecord.RawData = ''{}''\<rparr>"
    using PaymentFromCSVRow_example_values [OF p]
    by (simp add: payment_values_def example_values parse_or_now_def)
      (simp add: example_Lib_def example_time_Parse_def)
  have f: "filter (\<lambda>(j, line). accepted (PaymentFromCSVRow example_Lib 5 example_headers line))
      (zip [0..<length [[''2024-03-01'', ''ORD001'', ''100.00''], [''2024-03-01'', ''ORD003'', ''0.00''],
         [''2024-03-01'', '' '', ''12.50''], [''2024-03-01'', ''ORD003'']]]
        [[''2024-03-01'', ''ORD001'', ''100.00''], [''2024-03-01'', ''ORD003'', ''0.00''],
         [''2024-03-01'', '' '', ''12.50''], [''2024-03-01'', ''ORD003'']])
      = [(0, [''2024-03-01'', ''ORD001'', ''100.00''])]"
    unfolding z by (simp add: accepted_example_row accepted_short_row example_values)
  show ?thesis
    using payment_rows_filter [OF h1 h2 h3, of example_Lib "\<lambda>k. 5" empty_DB] h1 h2 h3
    unfolding f by (simp add: p v empty_DB_def)
qed

section \<open>Batch inserts\<close>

lemma exec_batch_Inr:
  "exec_batch F batch tx = Inr tx' \<Longrightarrow>
     map Record_values (records tx') = map Record_values (records tx) @ batch
     \<and> reconciled_records tx' = reconciled_records tx"
proof (induction batch arbitrary: tx)
  case Nil
  then show ?case by simp
next
  case (Cons r batch)
  from Cons.prems obtain tx1 where 1: "insert_record F r tx = Inr tx1"
      and 2: "exec_batch F batch tx1 = Inr tx'"
    by (auto split: sum.splits)
  from 1 have "map Record_values (records tx1) = map Record_values (records tx) @ [r]
      \<and> reconciled_records tx1 = reconciled_records tx"
    by (auto simp add: insert_record_def Record_values_def split: option.splits)
  with Cons.IH [OF 2] show ?case by simp
qed

lemma exec_batch_isl:
  "isl (exec_batch F batch tx) \<longleftrightarrow> (\<exists>r \<in> set batch. insert_record_err F r \<noteq> None)"
proof (induction batch arbitrary: tx)
  case Nil
  show ?case by simp
next
  case (Cons r batch)
  show ?case
  proof (cases "insert_record_err F r")
    case None
    then obtain tx1 where "insert_record F r tx = Inr tx1"
      by (simp add: insert_record_def)
    with None Cons.IH [of tx1] show ?thesis by simp
  next
    case (Some err)
    then have "insert_record F r tx = Inl err" by (simp add: insert_record_def)
    with Some show ?thesis by simp
  qed
qed

text \<open>
  Claim C4. A batch insert is atomic, for the prepared inserter (one transaction around
  one insert per record) and for the plain inserter (one multi-row statement): when
  \<^verbatim>\<open>insertBatch\<close> returns no error the table holds every row of the batch, in order,
  after the rows it held; when it returns an error the store is what it was, so none of
  the rows of the batch is there; and when the insert of any record of the batch fails,
  \<^verbatim>\<open>insertBatch\<close> returns an error.
\<close>

theorem insertBatch_atomic:
  "(snd (PreparedBatchInserter_insertBatch F pbi batch db) = None \<longrightarrow>
      map Record_values (records (fst (PreparedBatchInserter_insertBatch F pbi batch db)))
        = map Record_values (records db) @ batch)
   \<and> (snd (PreparedBatchInserter_insertBatch F pbi batch db) \<noteq> None \<longrightarrow>
      fst (PreparedBatchInserter_insertBatch F pbi batch db) = db)
   \<and> ((\<exists>r \<in> set batch. insert_record_err F r \<noteq> None) \<longrightarrow>
      snd (PreparedBatchInserter_insertBatch F pbi batch db) \<noteq> None)
   \<and> (snd (BatchInserter_insertBatch F bi batch db) = None \<longrightarrow>
      map Record_values (records (fst (BatchInserter_insertBatch F bi batch db)))
        = map Record_values (records db) @ batch)
   \<and> (snd (BatchInserter_insertBatch F bi batch db) \<noteq> None \<longrightarrow>
      fst (BatchInserter_insertBatch F bi batch db) = db)
   \<and> ((\<exists>r \<in> set batch. insert_record_err F r \<noteq> None) \<longrightarrow>
      snd (BatchInserter_insertBatch F bi batch db) \<noteq> None)"
proof -
  have fail: "\<exists>err. exec_batch F batch tx = Inl err"
    if "\<exists>r \<in> set batch. insert_record_err F r \<noteq> None" for tx
    using that exec_batch_isl [of F batch tx] by (cases "exec_batch F batch tx") auto
  have prepared: "(snd (PreparedBatchInserter_insertBatch F pbi batch db) = None \<longrightarrow>
      map Record_values (records (fst (PreparedBatchInserter_insertBatch F pbi batch db)))
        = map Record_values (records db) @ batch)
   \<and> (snd (PreparedBatchInserter_insertBatch F pbi batch db) \<noteq> None \<longrightarrow>
      fst (PreparedBatchInserter_insertBatch F pbi batch db) = db)"
    by (auto simp add: PreparedBatchInserter_insertBatch_def Beginx_def Commit_def Rollback_def
        exec_batch_Inr split: option.splits sum.splits)
  have prepared_err: "snd (PreparedBatchInserter_insertBatch F pbi batch db) \<noteq> None"
    if "\<exists>r \<in> set batch. insert_record_err F r \<noteq> None"
    using that fail [OF that, of db]
    by (auto simp add: PreparedBatchInserter_insertBatch_def Beginx_def Commit_def Rollback_def
        split: option.splits sum.splits)
  have multi: "(snd (BatchInserter_insertBatch F bi batch db) = None \<longrightarrow>
      map Record_values (records (fst (BatchInserter_insertBatch F bi batch db)))
        = map Record_values (records db) @ batch)
   \<and> (snd (BatchInserter_insertBatch F bi batch db) \<noteq> None \<longrightarrow>
      fst (BatchInserter_insertBatch F bi batch db) = db)"
    by (auto simp add: BatchInserter_insertBatch_def Exec_multi_insert_def exec_batch_Inr
        split: sum.splits)
  have multi_err: "snd (BatchInserter_insertBatch F bi batch db) \<noteq> None"
    if "\<exists>r \<in> set batch. insert_record_err F r \<noteq> None"
    using that fail [OF that, of db]
    by (auto simp add: BatchInserter_insertBatch_def Exec_multi_insert_def split: sum.splits)
  from prepared prepared_err multi multi_err show ?thesis by blast
qed

theorem insertBatch_atomic_witness:
  "insert_record_err example_Faults (example_batch ! 1) \<noteq> None
   \<and> example_batch ! 1 \<in> set example_batch
   \<and> PreparedBatchInserter_insertBatch example_Faults
        \<lparr>PreparedBatchInserter.stmt = ''INSERT'', PreparedBatchInserter.batchSize = 2,
         PreparedBatchInserter.workers = 1\<rparr> example_batch empty_DB
       = (empty_DB, Some (External 3))
   \<and> BatchInserter_insertBatch example_Faults (NewBatchInserter 2 1) example_batch empty_DB
       = (empty_DB, Some (External 3))
   \<and> snd (PreparedBatchInserter_insertBatch no_faults
        \<lparr>PreparedBatchInserter.stmt = ''INSERT'', PreparedBatchInserter.batchSize = 2,
         PreparedBatchInserter.workers = 1\<rparr> example_batch empty_DB) = None
   \<and> map Record_values (records (fst (PreparedBatchInserter_insertBatch no_faults
        \<lparr>PreparedBatchInserter.stmt = ''INSERT'', PreparedBatchInserter.batchSize = 2,
         PreparedBatchInserter.workers = 1\<rparr> example_batch empty_DB))) = example_batch
   \<and> snd (BatchInserter_insertBatch no_faults (NewBatchInserter 2 1) example_batch empty_DB) = None
   \<and> map Record_values (records (fst (BatchInserter_insertBatch no_faults (NewBatchInserter 2 1)
        example_batch empty_DB))) = example_batch"
  using insertBatch_atomic [of example_Faults
      "\<lparr>PreparedBatchInserter.stmt = ''INSERT'', PreparedBatchInserter.batchSize = 2,
        PreparedBatchInserter.workers = 1\<rparr>" example_batch empty_DB "NewBatchInserter 2 1"]
    insertBatch_atomic [of no_faults
      "\<lparr>PreparedBatchInserter.stmt = ''INSERT'', PreparedBatchInserter.batchSize = 2,
        PreparedBatchInserter.workers = 1\<rparr>" example_batch empty_DB "NewBatchInserter 2 1"]
  by (simp add: PreparedBatchInserter_insertBatch_def BatchInserter_insertBatch_def
      Exec_multi_insert_def Beginx_def Commit_def Rollback_def insert_record_def
      example_Faults_def no_faults_def example_batch_def empty_DB_def Record_values_def)

section \<open>Reconciliation\<close>

lemma reconcile_rows_result:
  "map ReconciledRecord_values (reconciled_records (reconcile_rows F rows db))
     = map ReconciledRecord_values (reconciled_records db)
       @ map difference_row (filter (insert_accepted F) rows)
   \<and> records (reconcile_rows F rows db) = records db"
proof (induction rows arbitrary: db)
  case Nil
  show ?case by simp
next
  case (Cons row rows)
  obtain paymentId orderId paymentTotal settlementId settlementTotal
    where row: "row = (paymentId, orderId, paymentTotal, settlementId, settlementTotal)"
    by (cases row) auto
  let ?db = "Exec_dropped
    (insert_reconciled F paymentId settlementId (paymentTotal - settlementTotal) db) db"
  have step: "reconcile_rows F (row # rows) db = reconcile_rows F rows ?db"
    by (simp add: row)
  have "map ReconciledRecord_values (reconciled_records ?db)
      = map ReconciledRecord_values (reconciled_records db)
        @ map difference_row (filter (insert_accepted F) [row])
    \<and> records ?db = records db"
    by (auto simp add: row insert_reconciled_def Exec_dropped_def insert_accepted_def
        difference_row_def ReconciledRecord_values_def split: option.splits)
  with Cons.IH [of ?db] show ?case
    unfolding step by (cases "insert_accepted F row") simp_all
qed

lemma join_rows_delete [simp]:
  "join_rows (Exec_dropped (delete_reconciled F db) db) = join_rows db"
  by (simp add: join_rows_def delete_reconciled_def Exec_dropped_def split: option.splits)

lemma join_rows_example:
  "join_rows example_DB = [(1, ''ORD001'', 10000, 4, 10000), (2, ''ORD002'', 15000, 5, 14500)]"
  by (simp add: join_rows_def example_DB_def example_record_def)

text \<open>
  Claim C9, as the specification states it, fails: with a server that rejects the
  reconciliation row of payment 1, the join has two rows, the insert for the first fails,
  and \<^verbatim>\<open>RunReconciliation\<close> still inserts the row for the second and returns no error.
\<close>

theorem reconciliation_abort_counterexample:
  "RunReconciliation example_Faults example_DB
     = (example_DB\<lparr>reconciled_records :=
          [\<lparr>ReconciledRecord.ID = 1, PaymentsRecordID = 2, SettlementsRecordID = 5,
            AmountDifference = 500\<rparr>],
          reconciled_records_id_seq := 2\<rparr>, None)
   \<and> join_rows example_DB = [(1, ''ORD001'', 10000, 4, 10000), (2, ''ORD002'', 15000, 5, 14500)]
   \<and> insert_reconciled example_Faults 1 4 (10000 - 10000) example_DB = Inl (External 4)"
proof -
  have d: "Exec_dropped (delete_reconciled example_Faults example_DB) example_DB = example_DB"
    by (simp add: delete_reconciled_def Exec_dropped_def example_Faults_def example_DB_def)
  have "RunReconciliation example_Faults example_DB
     = (reconcile_rows example_Faults (join_rows example_DB) example_DB, None)"
    by (simp add: RunReconciliation_def join_query_def Let_def d) (simp add: example_Faults_def)
  then show ?thesis
    unfolding join_rows_example
    by (simp add: insert_reconciled_def Exec_dropped_def example_Faults_def)
      (simp add: example_DB_def)
qed

text \<open>
  Claim C9, amended. \<^verbatim>\<open>RunReconciliation\<close> returns an error exactly when the join query
  fails, and it returns that error. A failed insert into \<^verbatim>\<open>reconciled_records\<close> is
  dropped without retry and does not stop the pass: after a successful query the table
  holds, after what the initial delete left, one row for every matched pair whose insert
  the server accepted, in the order of the join. The table \<^verbatim>\<open>records\<close> is not changed.
\<close>

theorem reconciliation_ignores_insert_errors:
  "snd (RunReconciliation F db) = query_err F
   \<and> records (fst (RunReconciliation F db)) = records db
   \<and> (query_err F = None \<longrightarrow>
        map ReconciledRecord_values (reconciled_records (fst (RunReconciliation F db)))
          = (if delete_reconciled_err F = None then []
             else map ReconciledRecord_values (reconciled_records db))
            @ map difference_row (filter (insert_accepted F) (join_rows db)))"
proof -
  let ?db1 = "Exec_dropped (delete_reconciled F db) db"
  have db1: "records ?db1 = records db"
    "map ReconciledRecord_values (reconciled_records ?db1)
       = (if delete_reconciled_err F = None then []
          else map ReconciledRecord_values (reconciled_records db))"
    by (auto simp add: delete_reconciled_def Exec_dropped_def split: option.splits)
  show ?thesis
  proof (cases "query_err F")
    case (Some err)
    then show ?thesis
      by (simp add: RunReconciliation_def join_query_def Let_def db1)
  next
    case None
    then have "RunReconciliation F db = (reconcile_rows F (join_rows db) ?db1, None)"
      by (simp add: RunReconciliation_def join_query_def Let_def)
    with None reconcile_rows_result [of F "join_rows db" ?db1] db1 show ?thesis
      by simp
  qed
qed

theorem reconciliation_ignores_insert_errors_witness:
  "query_err example_Faults = None
   \<and> snd (RunReconciliation example_Faults example_DB) = None
   \<and> map ReconciledRecord_values
       (reconciled_records (fst (RunReconciliation example_Faults example_DB)))
     = [(2, 5, 500)]"
proof -
  have "filter (insert_accepted example_Faults) (join_rows example_DB)
      = [(2, ''ORD002'', 15000, 5, 14500)]"
    unfolding join_rows_example
    by (simp add: insert_accepted_def difference_row_def example_Faults_def)
  then show ?thesis
    using reconciliation_ignores_insert_errors [of example_Faults example_DB]
    by (simp add: difference_row_def) (simp add: example_Faults_def)
qed

lemma join_rows_mem:
  "row \<in> set (join_rows db) \<longleftrightarrow>
     (\<exists>p \<in> set (records db). \<exists>s \<in> set (records db).
        Record.OrderID p = Record.OrderID s
        \<and> Record.Source p = ''payments'' \<and> Record.Source s = ''settlements''
        \<and> row = (Record.ID p, Record.OrderID p, Record.TotalAmount p,
                  Record.ID s, Record.TotalAmount s))"
proof
  assume "row \<in> set (join_rows db)"
  then obtain p s where "p \<in> set (records db)" "s \<in> set (records db)"
    "Record.OrderID p = Record.OrderID s" "Record.Source p = ''payments''"
    "Record.Source s = ''settlements''"
    "row = (Record.ID p, Record.OrderID p, Record.TotalAmount p, Record.ID s, Record.TotalAmount s)"
    by (auto simp add: join_rows_def split: if_splits)
  then show "\<exists>p \<in> set (records db). \<exists>s \<in> set (records db).
        Record.OrderID p = Record.OrderID s
        \<and> Record.Source p = ''payments'' \<and> Record.Source s = ''settlements''
        \<and> row = (Record.ID p, Record.OrderID p, Record.TotalAmount p,
                  Record.ID s, Record.TotalAmount s)"
    by blast
next
  assume "\<exists>p \<in> set (records db). \<exists>s \<in> set (records db).
        Record.OrderID p = Record.OrderID s
        \<and> Record.Source p = ''payments'' \<and> Record.Source s = ''settlements''
        \<and> row = (Record.ID p, Record.OrderID p, Record.TotalAmount p,
                  Record.ID s, Record.TotalAmount s)"
  then show "row \<in> set (join_rows db)"
    by (auto simp add: join_rows_def)
qed

lemma distinct_ID_eq:
  "distinct (map Record.ID rs) \<Longrightarrow> p \<in> set rs \<Longrightarrow> q \<in> set rs \<Longrightarrow>
     Record.ID p = Record.ID q \<Longrightarrow> p = q"
  by (meson distinct_map inj_onD)

lemma RunReconciliation_no_faults:
  assumes "delete_reconciled_err F = None" and "query_err F = None"
    and "\<forall>paymentId settlementId diff. insert_reconciled_err F paymentId settlementId diff = None"
  shows "snd (RunReconciliation F db) = None"
    and "records (fst (RunReconciliation F db)) = records db"
    and "map ReconciledRecord_values (reconciled_records (fst (RunReconciliation F db)))
           = map difference_row (join_rows db)"
proof -
  let ?db1 = "Exec_dropped (delete_reconciled F db) db"
  have run: "RunReconciliation F db = (reconcile_rows F (join_rows db) ?db1, None)"
    using assms(2) by (simp add: RunReconciliation_def join_query_def Let_def)
  have db1: "records ?db1 = records db" "reconciled_records ?db1 = []"
    using assms(1) by (simp_all add: delete_reconciled_def Exec_dropped_def)
  have all: "filter (insert_accepted F) rows = rows" for rows
    using assms(3) by (simp add: insert_accepted_def split_beta)
  from run show "snd (RunReconciliation F db) = None" by simp
  from run db1 reconcile_rows_result [of F "join_rows db" ?db1]
  show "records (fst (RunReconciliation F db)) = records db" by simp
  from run db1 reconcile_rows_result [of F "join_rows db" ?db1] all
  show "map ReconciledRecord_values (reconciled_records (fst (RunReconciliation F db)))
      = map difference_row (join_rows db)"
    by simp
qed

text \<open>
  Claim C1. On a store whose statements succeed and whose \<^verbatim>\<open>records\<close> rows have
  distinct ids (the primary key), after \<^verbatim>\<open>RunReconciliation\<close>: a reconciliation row
  exists for an order key \<open>K\<close> if and only if \<^verbatim>\<open>records\<close> has a row with source
  \<^verbatim>\<open>payments\<close> and order id \<open>K\<close> and a row with source \<^verbatim>\<open>settlements\<close> and order id
  \<open>K\<close>; every reconciliation row references such a pair and its
  \<^verbatim>\<open>amount_difference\<close> is the payments row's total minus the settlements row's
  total; and every such pair has its row.
\<close>

theorem reconciliation_inner_join:
  assumes "delete_reconciled_err F = None" and "query_err F = None"
    and "\<forall>paymentId settlementId diff. insert_reconciled_err F paymentId settlementId diff = None"
    and "distinct (map Record.ID (records db))"
  shows "snd (RunReconciliation F db) = None
     \<and> records (fst (RunReconciliation F db)) = records db
     \<and> (result_exists_for (fst (RunReconciliation F db)) K
          \<longleftrightarrow> has_row db ''payments'' K \<and> has_row db ''settlements'' K)
     \<and> (\<forall>r \<in> set (reconciled_records (fst (RunReconciliation F db))).
          \<exists>p \<in> set (records db). \<exists>s \<in> set (records db).
            Record.ID p = PaymentsRecordID r \<and> Record.ID s = SettlementsRecordID r
            \<and> Record.Source p = ''payments'' \<and> Record.Source s = ''settlements''
            \<and> Record.OrderID p = Record.OrderID s
            \<and> AmountDifference r = Record.TotalAmount p - Record.TotalAmount s)
     \<and> (\<forall>p \<in> set (records db). \<forall>s \<in> set (records db).
          Record.Source p = ''payments'' \<and> Record.Source s = ''settlements''
          \<and> Record.OrderID p = Record.OrderID s \<longrightarrow>
            (\<exists>r \<in> set (reconciled_records (fst (RunReconciliation F db))).
               PaymentsRecordID r = Record.ID p \<and> SettlementsRecordID r = Record.ID s
               \<and> AmountDifference r = Record.TotalAmount p - Record.TotalAmount s))"
proof -
  let ?db' = "fst (RunReconciliation F db)"
  note nf = RunReconciliation_no_faults [OF assms(1-3), of db]
  have "set (map ReconciledRecord_values (reconciled_records ?db'))
      = set (map difference_row (join_rows db))"
    by (simp only: nf(3))
  then have img: "ReconciledRecord_values ` set (reconciled_records ?db')
      = difference_row ` set (join_rows db)"
    by simp
  have rows: "\<exists>p \<in> set (records db). \<exists>s \<in> set (records db).
            Record.ID p = PaymentsRecordID r \<and> Record.ID s = SettlementsRecordID r
            \<and> Record.Source p = ''payments'' \<and> Record.Source s = ''settlements''
            \<and> Record.OrderID p = Record.OrderID s
            \<and> AmountDifference r = Record.TotalAmount p - Record.TotalAmount s"
    if "r \<in> set (reconciled_records ?db')" for r
  proof -
    from that have "ReconciledRecord_values r \<in> difference_row ` set (join_rows db)"
      using img by blast
    then obtain row where "row \<in> set (join_rows db)" "ReconciledRecord_values r = difference_row row"
      by blast
    then show ?thesis
      unfolding join_rows_mem
      by (auto simp add: ReconciledRecord_values_def difference_row_def) metis
  qed
  have pairs: "\<exists>r \<in> set (reconciled_records ?db').
               PaymentsRecordID r = Record.ID p \<and> SettlementsRecordID r = Record.ID s
               \<and> AmountDifference r = Record.TotalAmount p - Record.TotalAmount s"
    if "p \<in> set (records db)" "s \<in> set (records db)" "Record.Source p = ''payments''"
      "Record.Source s = ''settlements''" "Record.OrderID p = Record.OrderID s" for p s
  proof -
    from that have "(Record.ID p, Record.OrderID p, Record.TotalAmount p,
        Record.ID s, Record.TotalAmount s) \<in> set (join_rows db)"
      unfolding join_rows_mem by blast
    then have "(Record.ID p, Record.ID s, Record.TotalAmount p - Record.TotalAmount s)
        \<in> difference_row ` set (join_rows db)"
      by (force simp add: difference_row_def)
    with img obtain r where "r \<in> set (reconciled_records ?db')"
      "ReconciledRecord_values r = (Record.ID p, Record.ID s, Record.TotalAmount p - Record.TotalAmount s)"
      by (metis (no_types, lifting) imageE)
    then show ?thesis
      by (auto simp add: ReconciledRecord_values_def)
  qed
  have iff: "result_exists_for ?db' K \<longleftrightarrow> has_row db ''payments'' K \<and> has_row db ''settlements'' K"
  proof
    assume "result_exists_for ?db' K"
    then obtain r p s where r: "r \<in> set (reconciled_records ?db')"
      and p: "p \<in> set (records db)" "Record.ID p = PaymentsRecordID r" "Record.OrderID p = K"
      and s: "s \<in> set (records db)" "Record.ID s = SettlementsRecordID r" "Record.OrderID s = K"
      unfolding result_exists_for_def list_ex_iff nf(2) by blast
    from rows [OF r] obtain p' s' where p': "p' \<in> set (records db)" "Record.ID p' = PaymentsRecordID r"
        "Record.Source p' = ''payments''"
      and s': "s' \<in> set (records db)" "Record.ID s' = SettlementsRecordID r"
        "Record.Source s' = ''settlements''"
      by blast
    from distinct_ID_eq [OF assms(4) p(1) p'(1)] p(2) p'(2) have "p = p'" by simp
    moreover from distinct_ID_eq [OF assms(4) s(1) s'(1)] s(2) s'(2) have "s = s'" by simp
    ultimately show "has_row db ''payments'' K \<and> has_row db ''settlements'' K"
      using p s p' s' unfolding has_row_def list_ex_iff by blast
  next
    assume "has_row db ''payments'' K \<and> has_row db ''settlements'' K"
    then obtain p s where p: "p \<in> set (records db)" "Record.Source p = ''payments''"
        "Record.OrderID p = K"
      and s: "s \<in> set (records db)" "Record.Source s = ''settlements''" "Record.OrderID s = K"
      unfolding has_row_def list_ex_iff by blast
    from pairs [OF p(1) s(1) p(2) s(2)] p(3) s(3) obtain r
      where "r \<in> set (reconciled_records ?db')" "PaymentsRecordID r = Record.ID p"
        "SettlementsRecordID r = Record.ID s"
      by auto
    with p s show "result_exists_for ?db' K"
      unfolding result_exists_for_def list_ex_iff nf(2) by metis
  qed
  from nf(1,2) iff rows pairs show ?thesis by blast
qed

theorem reconciliation_inner_join_witness:
  "delete_reconciled_err (no_faults :: int Faults) = None
   \<and> query_err (no_faults :: int Faults) = None
   \<and> (\<forall>paymentId settlementId diff.
        insert_reconciled_err (no_faults :: int Faults) paymentId settlementId diff = None)
   \<and> distinct (map Record.ID (records example_DB))
   \<and> snd (RunReconciliation no_faults example_DB) = None
   \<and> result_exists_for (fst (RunReconciliation no_faults example_DB)) ''ORD001''
   \<and> result_exists_for (fst (RunReconciliation no_faults example_DB)) ''ORD002''
   \<and> \<not> result_exists_for (fst (RunReconciliation no_faults example_DB)) ''ORD009''
   \<and> map ReconciledRecord_values
        (reconciled_records (fst (RunReconciliation no_faults example_DB)))
      = [(1, 4, 0), (2, 5, 500)]"
proof -
  have h1: "delete_reconciled_err (no_faults :: int Faults) = None"
    and h2: "query_err (no_faults :: int Faults) = None"
    and h3: "\<forall>paymentId settlementId diff.
        insert_reconciled_err (no_faults :: int Faults) paymentId settlementId diff = None"
    by (simp_all add: no_faults_def)
  have h4: "distinct (map Record.ID (records example_DB))"
    by (simp add: example_DB_def example_record_def)
  have rows: "has_row example_DB ''payments'' ''ORD001''" "has_row example_DB ''settlements'' ''ORD001''"
    "has_row example_DB ''payments'' ''ORD002''" "has_row example_DB ''settlements'' ''ORD002''"
    "has_row example_DB ''payments'' ''ORD009''" "\<not> has_row example_DB ''settlements'' ''ORD009''"
    by (simp_all add: has_row_def example_DB_def example_record_def)
  have vals: "map ReconciledRecord_values
        (reconciled_records (fst (RunReconciliation no_faults example_DB)))
      = [(1, 4, 0), (2, 5, 500)]"
    by (simp add: RunReconciliation_no_faults(3) [OF h1 h2 h3] join_rows_example
        difference_row_def)
  show ?thesis
    using reconciliation_inner_join [OF h1 h2 h3 h4, of "''ORD001''"]
      reconciliation_inner_join [OF h1 h2 h3 h4, of "''ORD002''"]
      reconciliation_inner_join [OF h1 h2 h3 h4, of "''ORD009''"]
      h1 h2 h3 h4 rows vals
    by simp
qed

end
